theory Spec2Isabelle
  imports Complex_Main "HOL-Library.Multiset"
begin

section \<open>Numbers\<close>

text \<open>
  Every TypeScript \<^verbatim>\<open>number\<close> of the sources is modelled as a \<^typ>\<open>real\<close>: the
  arithmetic is the exact one, without the rounding of IEEE doubles and without NaN
  or Infinity. Counters that the code only increments by one are \<^typ>\<open>nat\<close>.
\<close>

text \<open>\<^verbatim>\<open>Math.round\<close>: the nearest integer, a tie going up.\<close>

definition Math_round :: "real \<Rightarrow> real" where
  "Math_round v = of_int \<lfloor>v + 1 / 2\<rfloor>"

section \<open>Data model (types.ts, cursorUtils)\<close>

datatype ZoomDepth = Depth1 | Depth2 | Depth3 | Depth4 | Depth5 | Depth6

record ZoomFocus =
  cx :: real
  cy :: real

text \<open>The field \<^verbatim>\<open>focus\<close> of a keyframe is \<open>kfFocus\<close> here, apart from the region's.\<close>

record ZoomFocusKeyframe =
  timeOffsetMs :: real
  kfFocus :: ZoomFocus

text \<open>
  The field \<^verbatim>\<open>id\<close> is \<open>regionId\<close> here; the optional \<^verbatim>\<open>focusKeyframes\<close> is an
  option, \<open>None\<close> for \<^verbatim>\<open>undefined\<close>.
\<close>

record ZoomRegion =
  regionId :: string
  startMs :: real
  endMs :: real
  depth :: ZoomDepth
  focus :: ZoomFocus
  focusKeyframes :: "ZoomFocusKeyframe list option"

datatype CursorEventType = Move | Click | Scroll

text \<open>
  The fields \<^verbatim>\<open>type\<close>, \<^verbatim>\<open>x\<close> and \<^verbatim>\<open>y\<close> of a cursor event are \<open>evType\<close>,
  \<open>screenX\<close> and \<open>screenY\<close> here.
\<close>

record CursorEvent =
  evType :: CursorEventType
  timestamp :: real
  screenX :: real
  screenY :: real
  normalizedX :: real
  normalizedY :: real
  button :: "int option"
  scrollDelta :: "real option"

section \<open>Math utilities (videoPlayback/mathUtils.ts)\<close>

definition clamp01 :: "real \<Rightarrow> real" where
  "clamp01 v = max 0 (min 1 v)"

definition smoothStep :: "real \<Rightarrow> real" where
  "smoothStep t = (let clamped = clamp01 t in clamped * clamped * (3 - 2 * clamped))"

definition smootherStep :: "real \<Rightarrow> real" where
  "smootherStep t =
     (let clamped = clamp01 t
      in clamped * clamped * clamped * (clamped * (clamped * 6 - 15) + 10))"

definition catmullRomInterpolate :: "real \<Rightarrow> real \<Rightarrow> real \<Rightarrow> real \<Rightarrow> real \<Rightarrow> real \<Rightarrow> real" where
  "catmullRomInterpolate p0 p1 p2 p3 t tension =
     (let t2 = t * t;
          t3 = t2 * t;
          m1 = tension * (p2 - p0);
          m2 = tension * (p3 - p1)
      in (2 * t3 - 3 * t2 + 1) * p1 +
         (t3 - 2 * t2 + t) * m1 +
         (- 2 * t3 + 3 * t2) * p2 +
         (t3 - t2) * m2)"

section \<open>Cursor event capture: normalisation (MouseTracker.normalizeCoordinates)\<close>

text \<open>
  The rectangle \<^verbatim>\<open>{x, y, width, height}\<close> of the recorded display; its fields
  \<^verbatim>\<open>x\<close> and \<^verbatim>\<open>y\<close> are \<open>boundsX\<close> and \<open>boundsY\<close> here. The tracker's
  \<^verbatim>\<open>displayBounds\<close> is \<^verbatim>\<open>null\<close> until \<^verbatim>\<open>start\<close> resolves it: an option.
\<close>

record DisplayBounds =
  boundsX :: real
  boundsY :: real
  width :: real
  height :: real

text \<open>The result \<^verbatim>\<open>{normalizedX, normalizedY}\<close> is the pair, in this order.\<close>

definition normalizeCoordinates :: "DisplayBounds option \<Rightarrow> real \<Rightarrow> real \<Rightarrow> real \<times> real" where
  "normalizeCoordinates displayBounds px py =
     (case displayBounds of
        None \<Rightarrow> (0.5, 0.5)
      | Some b \<Rightarrow>
          (let clampedX = max (boundsX b) (min px (boundsX b + width b));
               clampedY = max (boundsY b) (min py (boundsY b + height b))
           in ((clampedX - boundsX b) / width b, (clampedY - boundsY b) / height b)))"

section \<open>Region dominance (videoPlayback/zoomRegionUtils, constants)\<close>

definition TRANSITION_WINDOW_MS :: real where
  "TRANSITION_WINDOW_MS = 400"

definition computeRegionStrength :: "ZoomRegion \<Rightarrow> real \<Rightarrow> real" where
  "computeRegionStrength region timeMs =
     (let leadInStart = startMs region - TRANSITION_WINDOW_MS;
          leadOutEnd = endMs region + TRANSITION_WINDOW_MS
      in if timeMs < leadInStart \<or> timeMs > leadOutEnd then 0
         else (let fadeIn = smootherStep ((timeMs - leadInStart) / TRANSITION_WINDOW_MS);
                   fadeOut = smootherStep ((leadOutEnd - timeMs) / TRANSITION_WINDOW_MS)
               in min fadeIn fadeOut))"

text \<open>
  The loop of \<^verbatim>\<open>findDominantRegion\<close> over the regions, carrying
  \<^verbatim>\<open>bestRegion\<close> and \<^verbatim>\<open>bestStrength\<close>.
\<close>

fun dominantLoop :: "real \<Rightarrow> ZoomRegion list \<Rightarrow> ZoomRegion option \<Rightarrow> real \<Rightarrow> ZoomRegion option \<times> real" where
  "dominantLoop timeMs [] bestRegion bestStrength = (bestRegion, bestStrength)"
| "dominantLoop timeMs (region # rest) bestRegion bestStrength =
     (let strength = computeRegionStrength region timeMs
      in if strength > bestStrength then dominantLoop timeMs rest (Some region) strength
         else dominantLoop timeMs rest bestRegion bestStrength)"

definition findDominantRegion :: "ZoomRegion list \<Rightarrow> real \<Rightarrow> ZoomRegion option \<times> real" where
  "findDominantRegion regions timeMs = dominantLoop timeMs regions None 0"

section \<open>Focus interpolation (videoPlayback/zoomRegionUtils)\<close>

text \<open>
  Reading a field of \<^verbatim>\<open>keyframes[i]\<close> throws a TypeError when \<open>i\<close> is out of
  range; the result type makes it a value.
\<close>

datatype js_error = TypeError

text \<open>
  The search loop \<^verbatim>\<open>for (let i = 0; i < keyframes.length - 1; i++)\<close>, leaving with
  the first bracketing index; \<^verbatim>\<open>currentIndex\<close> stays 0 when no index brackets.
\<close>

function keyframeIndexLoop :: "ZoomFocusKeyframe list \<Rightarrow> real \<Rightarrow> nat \<Rightarrow> nat" where
  "keyframeIndexLoop keyframes timeOffset i =
     (if i + 1 < length keyframes then
        (if timeOffset \<ge> timeOffsetMs (keyframes ! i) \<and>
            timeOffset < timeOffsetMs (keyframes ! (i + 1))
         then i
         else keyframeIndexLoop keyframes timeOffset (i + 1))
      else 0)"
  by pat_completeness auto
termination
  by (relation "measure (\<lambda>(keyframes, timeOffset, i). length keyframes - i)") auto

declare keyframeIndexLoop.simps [simp del]

definition interpolateFocusFromKeyframes :: "ZoomRegion \<Rightarrow> real \<Rightarrow> js_error + ZoomFocus" where
  "interpolateFocusFromKeyframes region currentTimeMs =
     (case focusKeyframes region of
        None \<Rightarrow> Inr (focus region)
      | Some keyframes \<Rightarrow>
          if keyframes = [] then Inr (focus region)
          else
            (let timeOffset = currentTimeMs - startMs region
             in if timeOffset \<le> timeOffsetMs (keyframes ! 0) then Inr (kfFocus (keyframes ! 0))
                else
                  (let lastKeyframe = keyframes ! (length keyframes - 1)
                   in if timeOffset \<ge> timeOffsetMs lastKeyframe then Inr (kfFocus lastKeyframe)
                      else
                        (let currentIndex = keyframeIndexLoop keyframes timeOffset 0
                         in if \<not> currentIndex + 1 < length keyframes then Inl TypeError
                            else
                              (let p1 = keyframes ! currentIndex;
                                   p2 = keyframes ! (currentIndex + 1);
                                   p0 = (if currentIndex > 0 then keyframes ! (currentIndex - 1) else p1);
                                   p3 = (if currentIndex + 2 < length keyframes
                                         then keyframes ! (currentIndex + 2) else p2);
                                   segmentDuration = timeOffsetMs p2 - timeOffsetMs p1
                               in if segmentDuration \<le> 0 then Inr (kfFocus p1)
                                  else
                                    (let t = (timeOffset - timeOffsetMs p1) / segmentDuration
                                     in Inr \<lparr>cx = catmullRomInterpolate (cx (kfFocus p0)) (cx (kfFocus p1))
                                                    (cx (kfFocus p2)) (cx (kfFocus p3)) t 0.5,
                                              cy = catmullRomInterpolate (cy (kfFocus p0)) (cy (kfFocus p1))
                                                    (cy (kfFocus p2)) (cy (kfFocus p3)) t 0.5\<rparr>))))))"

section \<open>Auto-zoom synthesis (cursorUtils)\<close>

record AutoZoomConfig =
  zoomDepth :: ZoomDepth
  zoomDurationMs :: real
  minIntervalMs :: real
  keyframeSampleIntervalMs :: real
  keyframeMinDistance :: real

text \<open>\<^verbatim>\<open>Partial<AutoZoomConfig>\<close>: every field may be absent.\<close>

record PartialAutoZoomConfig =
  zoomDepthOpt :: "ZoomDepth option"
  zoomDurationMsOpt :: "real option"
  minIntervalMsOpt :: "real option"
  keyframeSampleIntervalMsOpt :: "real option"
  keyframeMinDistanceOpt :: "real option"

definition DEFAULT_AUTO_ZOOM_CONFIG :: AutoZoomConfig where
  "DEFAULT_AUTO_ZOOM_CONFIG =
     \<lparr>zoomDepth = Depth3, zoomDurationMs = 2000, minIntervalMs = 500,
      keyframeSampleIntervalMs = 50, keyframeMinDistance = 0.01\<rparr>"

text \<open>The spread \<^verbatim>\<open>{ ...DEFAULT_AUTO_ZOOM_CONFIG, ...config }\<close>.\<close>

definition spreadConfig :: "AutoZoomConfig \<Rightarrow> PartialAutoZoomConfig \<Rightarrow> AutoZoomConfig" where
  "spreadConfig d config =
     \<lparr>zoomDepth = (case zoomDepthOpt config of None \<Rightarrow> zoomDepth d | Some v \<Rightarrow> v),
      zoomDurationMs = (case zoomDurationMsOpt config of None \<Rightarrow> zoomDurationMs d | Some v \<Rightarrow> v),
      minIntervalMs = (case minIntervalMsOpt config of None \<Rightarrow> minIntervalMs d | Some v \<Rightarrow> v),
      keyframeSampleIntervalMs =
        (case keyframeSampleIntervalMsOpt config of None \<Rightarrow> keyframeSampleIntervalMs d | Some v \<Rightarrow> v),
      keyframeMinDistance =
        (case keyframeMinDistanceOpt config of None \<Rightarrow> keyframeMinDistance d | Some v \<Rightarrow> v)\<rparr>"

text \<open>The clamped focus \<^verbatim>\<open>{cx: Math.max(0, Math.min(1, e.normalizedX)), cy: ...}\<close> of an event.\<close>

definition eventFocus :: "CursorEvent \<Rightarrow> ZoomFocus" where
  "eventFocus e = \<lparr>cx = max 0 (min 1 (normalizedX e)), cy = max 0 (min 1 (normalizedY e))\<rparr>"

text \<open>\<^verbatim>\<open>Math.sqrt(Math.pow(a.cx - b.cx, 2) + Math.pow(a.cy - b.cy, 2))\<close>.\<close>

definition focusDistance :: "ZoomFocus \<Rightarrow> ZoomFocus \<Rightarrow> real" where
  "focusDistance a b = sqrt ((cx a - cx b) ^ 2 + (cy a - cy b) ^ 2)"

text \<open>
  The sampling loop of \<^verbatim>\<open>generateFocusKeyframes\<close> over \<^verbatim>\<open>movesDuringZoom\<close>,
  carrying \<^verbatim>\<open>keyframes\<close>, \<^verbatim>\<open>lastKeyframeFocus\<close> and \<^verbatim>\<open>lastSampleTime\<close>.
\<close>

fun sampleMoves :: "AutoZoomConfig \<Rightarrow> real \<Rightarrow> CursorEvent list \<Rightarrow> ZoomFocusKeyframe list \<Rightarrow>
    ZoomFocus \<Rightarrow> real \<Rightarrow> ZoomFocusKeyframe list" where
  "sampleMoves config zoomStartMs [] keyframes lastKeyframeFocus lastSampleTime = keyframes"
| "sampleMoves config zoomStartMs (moveEvent # rest) keyframes lastKeyframeFocus lastSampleTime =
     (if timestamp moveEvent - lastSampleTime < keyframeSampleIntervalMs config
      then sampleMoves config zoomStartMs rest keyframes lastKeyframeFocus lastSampleTime
      else
        (let newFocus = eventFocus moveEvent;
             distance = focusDistance newFocus lastKeyframeFocus
         in if distance \<ge> keyframeMinDistance config
            then sampleMoves config zoomStartMs rest
                   (keyframes @ [\<lparr>timeOffsetMs = timestamp moveEvent - zoomStartMs, kfFocus = newFocus\<rparr>])
                   newFocus (timestamp moveEvent)
            else sampleMoves config zoomStartMs rest keyframes lastKeyframeFocus lastSampleTime))"

text \<open>The move events of the zoom period, \<^verbatim>\<open>movesDuringZoom\<close> of \<^verbatim>\<open>generateFocusKeyframes\<close>.\<close>

definition movesDuringZoom :: "CursorEvent list \<Rightarrow> real \<Rightarrow> real \<Rightarrow> CursorEvent list" where
  "movesDuringZoom cursorEvents zoomStartMs zoomEndMs =
     filter (\<lambda>e. evType e = Move \<and> timestamp e \<ge> zoomStartMs \<and> timestamp e \<le> zoomEndMs)
       cursorEvents"

definition generateFocusKeyframes :: "CursorEvent list \<Rightarrow> real \<Rightarrow> real \<Rightarrow> ZoomFocus \<Rightarrow>
    AutoZoomConfig \<Rightarrow> ZoomFocusKeyframe list" where
  "generateFocusKeyframes cursorEvents zoomStartMs zoomEndMs initialFocus config =
     (let keyframes0 = [\<lparr>timeOffsetMs = 0, kfFocus = initialFocus\<rparr>];
          moves = movesDuringZoom cursorEvents zoomStartMs zoomEndMs
      in if length moves = 0 then keyframes0
         else
           (let keyframes = sampleMoves config zoomStartMs moves keyframes0
                              initialFocus zoomStartMs
            in if length moves > 0 then
                 (let lastMove = last moves
                  in if keyframes \<noteq> [] \<and>
                        timestamp lastMove - zoomStartMs - timeOffsetMs (last keyframes) > 50
                     then
                       (let finalFocus = eventFocus lastMove;
                            distance = focusDistance finalFocus (kfFocus (last keyframes))
                        in if distance \<ge> keyframeMinDistance config * 0.5
                           then keyframes @
                                  [\<lparr>timeOffsetMs = timestamp lastMove - zoomStartMs, kfFocus = finalFocus\<rparr>]
                           else keyframes)
                     else keyframes)
               else keyframes))"

text \<open>
  The decimal digits of a counter, for the template string
  \<^verbatim>\<open>`auto-zoom-${++idCounter}`\<close>.
\<close>

function decimalString :: "nat \<Rightarrow> string" where
  "decimalString n =
     (if n < 10 then [''0123456789'' ! n]
      else decimalString (n div 10) @ [''0123456789'' ! (n mod 10)])"
  by pat_completeness auto
termination
  by (relation "measure (\<lambda>n. n)") auto

declare decimalString.simps [simp del]

text \<open>
  The body of the loop over \<^verbatim>\<open>clickEvents\<close> for one click: \<open>None\<close> where the body
  leaves with \<^verbatim>\<open>continue\<close>, otherwise the region it pushes and the new value of
  \<^verbatim>\<open>lastZoomEndMs\<close>.
\<close>

definition processClick :: "CursorEvent list \<Rightarrow> real \<Rightarrow> AutoZoomConfig \<Rightarrow> nat \<Rightarrow> real \<Rightarrow>
    CursorEvent \<Rightarrow> (ZoomRegion \<times> real) option" where
  "processClick cursorEvents videoDurationMs cfg idCounter lastZoomEndMs clickEvent =
     (if timestamp clickEvent - lastZoomEndMs < minIntervalMs cfg then None
      else
        (let startMs' = timestamp clickEvent;
             endMs' = min (startMs' + zoomDurationMs cfg) videoDurationMs
         in if endMs' - startMs' < 300 then None
            else
              (let initialFocus = eventFocus clickEvent;
                   focusKeyframes' = generateFocusKeyframes cursorEvents startMs' endMs' initialFocus cfg;
                   region = \<lparr>regionId = ''auto-zoom-'' @ decimalString (idCounter + 1),
                             startMs = Math_round startMs',
                             endMs = Math_round endMs',
                             depth = zoomDepth cfg,
                             focus = initialFocus,
                             focusKeyframes =
                               (if length focusKeyframes' > 1 then Some focusKeyframes' else None)\<rparr>
               in Some (region, endMs'))))"

text \<open>
  The loop over \<^verbatim>\<open>clickEvents\<close>, carrying \<^verbatim>\<open>regions\<close>, \<^verbatim>\<open>idCounter\<close> and
  \<^verbatim>\<open>lastZoomEndMs\<close>; it returns the first two.
\<close>

fun zoomLoop :: "CursorEvent list \<Rightarrow> real \<Rightarrow> AutoZoomConfig \<Rightarrow> CursorEvent list \<Rightarrow>
    ZoomRegion list \<Rightarrow> nat \<Rightarrow> real \<Rightarrow> ZoomRegion list \<times> nat" where
  "zoomLoop cursorEvents videoDurationMs cfg [] regions idCounter lastZoomEndMs = (regions, idCounter)"
| "zoomLoop cursorEvents videoDurationMs cfg (clickEvent # rest) regions idCounter lastZoomEndMs =
     (case processClick cursorEvents videoDurationMs cfg idCounter lastZoomEndMs clickEvent of
        None \<Rightarrow> zoomLoop cursorEvents videoDurationMs cfg rest regions idCounter lastZoomEndMs
      | Some (region, endMs') \<Rightarrow>
          zoomLoop cursorEvents videoDurationMs cfg rest (regions @ [region]) (idCounter + 1) endMs')"

definition isPrimaryClick :: "CursorEvent \<Rightarrow> bool" where
  "isPrimaryClick e \<longleftrightarrow> evType e = Click \<and> (button e = Some 1 \<or> button e = None)"

text \<open>The default \<^verbatim>\<open>{}\<close> of the parameter \<^verbatim>\<open>config\<close>.\<close>

definition emptyConfig :: PartialAutoZoomConfig where
  "emptyConfig =
     \<lparr>zoomDepthOpt = None, zoomDurationMsOpt = None, minIntervalMsOpt = None,
      keyframeSampleIntervalMsOpt = None, keyframeMinDistanceOpt = None\<rparr>"

text \<open>The result \<^verbatim>\<open>{regions, nextIdCounter}\<close> is the pair, in this order.\<close>

definition generateAutoZoomRegions :: "CursorEvent list \<Rightarrow> real \<Rightarrow> nat \<Rightarrow> PartialAutoZoomConfig \<Rightarrow>
    ZoomRegion list \<times> nat" where
  "generateAutoZoomRegions cursorEvents videoDurationMs existingZoomIdCounter config =
     (let cfg = spreadConfig DEFAULT_AUTO_ZOOM_CONFIG config;
          clickEvents = filter isPrimaryClick cursorEvents
      in if length clickEvents = 0 then ([], existingZoomIdCounter)
         else zoomLoop cursorEvents videoDurationMs cfg clickEvents [] existingZoomIdCounter
                (- minIntervalMs cfg))"

subsection \<open>Region merge\<close>

text \<open>The test \<^verbatim>\<open>manualRegions.some(...)\<close> for one auto region.\<close>

definition overlapsManual :: "ZoomRegion \<Rightarrow> ZoomRegion list \<Rightarrow> bool" where
  "overlapsManual autoRegion manualRegions =
     list_ex (\<lambda>manual. \<not> (endMs autoRegion \<le> startMs manual \<or> startMs autoRegion \<ge> endMs manual))
       manualRegions"

fun pushAutoRegions :: "ZoomRegion list \<Rightarrow> ZoomRegion list \<Rightarrow> ZoomRegion list \<Rightarrow> ZoomRegion list" where
  "pushAutoRegions manualRegions [] merged = merged"
| "pushAutoRegions manualRegions (autoRegion # rest) merged =
     (if \<not> overlapsManual autoRegion manualRegions
      then pushAutoRegions manualRegions rest (merged @ [autoRegion])
      else pushAutoRegions manualRegions rest merged)"

text \<open>
  \<^verbatim>\<open>merged.sort((a, b) => a.startMs - b.startMs)\<close>: the sort of an array is stable,
  as is the insertion sort \<^const>\<open>sort_key\<close>.
\<close>

definition mergeZoomRegions :: "ZoomRegion list \<Rightarrow> ZoomRegion list \<Rightarrow> ZoomRegion list" where
  "mergeZoomRegions autoRegions manualRegions =
     sort_key startMs (pushAutoRegions manualRegions autoRegions manualRegions)"

section \<open>Cursor overlay (CursorOverlay.tsx)\<close>

text \<open>The result \<^verbatim>\<open>{x, y, isClick}\<close>; its fields \<^verbatim>\<open>x\<close> and \<^verbatim>\<open>y\<close> are \<open>posX\<close> and \<open>posY\<close>.\<close>

record CursorPosition =
  posX :: real
  posY :: real
  isClick :: bool

text \<open>
  The scan of \<^verbatim>\<open>getCursorPositionAtTime\<close>, carrying \<^verbatim>\<open>beforeEvent\<close>,
  \<^verbatim>\<open>afterEvent\<close> and \<^verbatim>\<open>clickEvent\<close>; the \<^verbatim>\<open>break\<close> ends it at the first event
  later than \<^verbatim>\<open>timeMs\<close>.
\<close>

fun scanEvents :: "real \<Rightarrow> CursorEvent list \<Rightarrow> CursorEvent option \<Rightarrow> CursorEvent option \<Rightarrow>
    CursorEvent option \<Rightarrow> CursorEvent option \<times> CursorEvent option \<times> CursorEvent option" where
  "scanEvents timeMs [] beforeEvent afterEvent clickEvent = (beforeEvent, afterEvent, clickEvent)"
| "scanEvents timeMs (event # rest) beforeEvent afterEvent clickEvent =
     (let clickEvent' = (if evType event = Click \<and> \<bar>timestamp event - timeMs\<bar> < 300
                         then Some event else clickEvent)
      in if timestamp event \<le> timeMs then scanEvents timeMs rest (Some event) afterEvent clickEvent'
         else if afterEvent = None then (beforeEvent, Some event, clickEvent')
         else scanEvents timeMs rest beforeEvent afterEvent clickEvent')"

definition getCursorPositionAtTime :: "CursorEvent list \<Rightarrow> real \<Rightarrow> CursorPosition option" where
  "getCursorPositionAtTime cursorEvents timeMs =
     (if length cursorEvents = 0 then None
      else
        (case scanEvents timeMs cursorEvents None None None of
           (None, Some afterEvent, clickEvent) \<Rightarrow>
             Some \<lparr>posX = normalizedX afterEvent, posY = normalizedY afterEvent,
                   isClick = (clickEvent \<noteq> None)\<rparr>
         | (Some beforeEvent, None, clickEvent) \<Rightarrow>
             Some \<lparr>posX = normalizedX beforeEvent, posY = normalizedY beforeEvent,
                   isClick = (clickEvent \<noteq> None)\<rparr>
         | (Some beforeEvent, Some afterEvent, clickEvent) \<Rightarrow>
             (let timeDiff = timestamp afterEvent - timestamp beforeEvent
              in if timeDiff = 0
                 then Some \<lparr>posX = normalizedX beforeEvent, posY = normalizedY beforeEvent,
                            isClick = (clickEvent \<noteq> None)\<rparr>
                 else
                   (let progress = (timeMs - timestamp beforeEvent) / timeDiff;
                        smoothProgress = progress * progress * (3 - 2 * progress)
                    in Some \<lparr>posX = normalizedX beforeEvent +
                                     (normalizedX afterEvent - normalizedX beforeEvent) * smoothProgress,
                             posY = normalizedY beforeEvent +
                                     (normalizedY afterEvent - normalizedY beforeEvent) * smoothProgress,
                             isClick = (clickEvent \<noteq> None)\<rparr>))
         | (None, None, clickEvent) \<Rightarrow> None))"

section \<open>Playback transform engine (VideoPlayback.tsx)\<close>

text \<open>The constants of VideoPlayback.tsx; its transition window is \<open>VP_TRANSITION_WINDOW_MS\<close> here.\<close>

definition DEFAULT_FOCUS :: ZoomFocus where
  "DEFAULT_FOCUS = \<lparr>cx = 0.5, cy = 0.5\<rparr>"

definition VP_TRANSITION_WINDOW_MS :: real where
  "VP_TRANSITION_WINDOW_MS = 320"

definition SMOOTHING_FACTOR :: real where
  "SMOOTHING_FACTOR = 0.12"

definition MIN_DELTA :: real where
  "MIN_DELTA = 0.0001"

fun ZOOM_DEPTH_SCALES :: "ZoomDepth \<Rightarrow> real" where
  "ZOOM_DEPTH_SCALES Depth1 = 1.25"
| "ZOOM_DEPTH_SCALES Depth2 = 1.5"
| "ZOOM_DEPTH_SCALES Depth3 = 1.8"
| "ZOOM_DEPTH_SCALES Depth4 = 2.2"
| "ZOOM_DEPTH_SCALES Depth5 = 3.5"
| "ZOOM_DEPTH_SCALES Depth6 = 5.0"

text \<open>\<^verbatim>\<open>clamp\<close> of types.ts; its NaN branch has no counterpart over the reals.\<close>

definition clamp :: "real \<Rightarrow> real \<Rightarrow> real \<Rightarrow> real" where
  "clamp v lo hi = min hi (max lo v)"

definition clampFocusToDepth :: "ZoomFocus \<Rightarrow> ZoomDepth \<Rightarrow> ZoomFocus" where
  "clampFocusToDepth f d = \<lparr>cx = clamp (cx f) 0 1, cy = clamp (cy f) 0 1\<rparr>"

text \<open>
  The geometry the component keeps in refs: \<^verbatim>\<open>stageSizeRef\<close>, \<^verbatim>\<open>videoSizeRef\<close> and
  \<^verbatim>\<open>baseScaleRef\<close>.
\<close>

record StageGeometry =
  stageWidth :: real
  stageHeight :: real
  videoWidth :: real
  videoHeight :: real
  baseScale :: real

definition clampFocusToStage :: "StageGeometry \<Rightarrow> ZoomFocus \<Rightarrow> ZoomDepth \<Rightarrow> ZoomFocus" where
  "clampFocusToStage g f d =
     (if stageWidth g = 0 \<or> stageHeight g = 0 \<or> videoWidth g = 0 \<or> videoHeight g = 0 \<or> baseScale g \<le> 0
      then clampFocusToDepth f d
      else
        (let zoomScale = ZOOM_DEPTH_SCALES d;
             indicatorWidth = (videoWidth g / zoomScale) * baseScale g;
             indicatorHeight = (videoHeight g / zoomScale) * baseScale g;
             normalizedWidth = (if stageWidth g > 0 then min 1 (indicatorWidth / stageWidth g) else 1);
             normalizedHeight = (if stageHeight g > 0 then min 1 (indicatorHeight / stageHeight g) else 1);
             baseFocus = clampFocusToDepth f d;
             marginX = (if normalizedWidth \<ge> 1 then 0.5 else normalizedWidth / 2);
             marginY = (if normalizedHeight \<ge> 1 then 0.5 else normalizedHeight / 2);
             minX = marginX;
             maxX = (if normalizedWidth \<ge> 1 then 0.5 else 1 - marginX);
             minY = marginY;
             maxY = (if normalizedHeight \<ge> 1 then 0.5 else 1 - marginY)
         in \<lparr>cx = min maxX (max minX (cx baseFocus)), cy = min maxY (max minY (cy baseFocus))\<rparr>))"

text \<open>The component's own copies of the strength and dominance functions.\<close>

definition vpComputeRegionStrength :: "ZoomRegion \<Rightarrow> real \<Rightarrow> real" where
  "vpComputeRegionStrength region timeMs =
     (let leadInStart = startMs region - VP_TRANSITION_WINDOW_MS;
          leadOutEnd = endMs region + VP_TRANSITION_WINDOW_MS
      in if timeMs < leadInStart \<or> timeMs > leadOutEnd then 0
         else (let fadeIn = smoothStep ((timeMs - leadInStart) / VP_TRANSITION_WINDOW_MS);
                   fadeOut = smoothStep ((leadOutEnd - timeMs) / VP_TRANSITION_WINDOW_MS)
               in min fadeIn fadeOut))"

fun vpDominantLoop :: "real \<Rightarrow> ZoomRegion list \<Rightarrow> ZoomRegion option \<Rightarrow> real \<Rightarrow> ZoomRegion option \<times> real" where
  "vpDominantLoop timeMs [] bestRegion bestStrength = (bestRegion, bestStrength)"
| "vpDominantLoop timeMs (region # rest) bestRegion bestStrength =
     (let strength = vpComputeRegionStrength region timeMs
      in if strength > bestStrength then vpDominantLoop timeMs rest (Some region) strength
         else vpDominantLoop timeMs rest bestRegion bestStrength)"

definition vpFindDominantRegion :: "ZoomRegion list \<Rightarrow> real \<Rightarrow> ZoomRegion option \<times> real" where
  "vpFindDominantRegion regions timeMs = vpDominantLoop timeMs regions None 0"

text \<open>The animation state \<^verbatim>\<open>{scale, focusX, focusY}\<close> of \<^verbatim>\<open>animationStateRef\<close>.\<close>

record AnimationState =
  scale :: real
  focusX :: real
  focusY :: real

definition initialAnimationState :: AnimationState where
  "initialAnimationState = \<lparr>scale = 1, focusX = cx DEFAULT_FOCUS, focusY = cy DEFAULT_FOCUS\<rparr>"

text \<open>
  The first half of \<^verbatim>\<open>ticker\<close>: \<^verbatim>\<open>targetScaleFactor\<close> and \<^verbatim>\<open>targetFocus\<close> from
  the regions and the playback time.
\<close>

definition tickerTarget :: "StageGeometry \<Rightarrow> ZoomRegion list \<Rightarrow> real \<Rightarrow> real \<times> ZoomFocus" where
  "tickerTarget g zoomRegions currentTime =
     (case vpFindDominantRegion zoomRegions currentTime of
        (Some region, strength) \<Rightarrow>
          if strength > 0 then
            (let zoomScale = ZOOM_DEPTH_SCALES (depth region);
                 regionFocus = clampFocusToStage g (focus region) (depth region)
             in (1 + (zoomScale - 1) * strength,
                 \<lparr>cx = cx DEFAULT_FOCUS + (cx regionFocus - cx DEFAULT_FOCUS) * strength,
                  cy = cy DEFAULT_FOCUS + (cy regionFocus - cy DEFAULT_FOCUS) * strength\<rparr>))
          else (1, DEFAULT_FOCUS)
      | (None, strength) \<Rightarrow> (1, DEFAULT_FOCUS))"

text \<open>
  The second half of \<^verbatim>\<open>ticker\<close>: the smoothing of the three components of the state
  towards the target. The call of \<^verbatim>\<open>applyTransform\<close> that follows writes to the
  renderer only and leaves the state as it is.
\<close>

definition tickerSmooth :: "real \<Rightarrow> ZoomFocus \<Rightarrow> AnimationState \<Rightarrow> AnimationState" where
  "tickerSmooth targetScaleFactor targetFocus state =
     (let prevScale = scale state;
          prevFocusX = focusX state;
          prevFocusY = focusY state;
          scaleDelta = targetScaleFactor - scale state;
          focusXDelta = cx targetFocus - focusX state;
          focusYDelta = cy targetFocus - focusY state;
          nextScale = (if \<bar>scaleDelta\<bar> > MIN_DELTA then prevScale + scaleDelta * SMOOTHING_FACTOR
                       else targetScaleFactor);
          nextFocusX = (if \<bar>focusXDelta\<bar> > MIN_DELTA then prevFocusX + focusXDelta * SMOOTHING_FACTOR
                        else cx targetFocus);
          nextFocusY = (if \<bar>focusYDelta\<bar> > MIN_DELTA then prevFocusY + focusYDelta * SMOOTHING_FACTOR
                        else cy targetFocus)
      in \<lparr>scale = nextScale, focusX = nextFocusX, focusY = nextFocusY\<rparr>)"

definition ticker :: "StageGeometry \<Rightarrow> ZoomRegion list \<Rightarrow> real \<Rightarrow> AnimationState \<Rightarrow> AnimationState" where
  "ticker g zoomRegions currentTime state =
     (case tickerTarget g zoomRegions currentTime of
        (targetScaleFactor, targetFocus) \<Rightarrow> tickerSmooth targetScaleFactor targetFocus state)"

section \<open>Notions used in the statements\<close>

text \<open>Index \<open>j\<close> brackets the offset: \<open>keyframes[j].timeOffsetMs \<le> off < keyframes[j+1].timeOffsetMs\<close>.\<close>

definition bracketsAt :: "ZoomFocusKeyframe list \<Rightarrow> real \<Rightarrow> nat \<Rightarrow> bool" where
  "bracketsAt kfs off j \<longleftrightarrow>
     j + 1 < length kfs \<and> timeOffsetMs (kfs ! j) \<le> off \<and> off < timeOffsetMs (kfs ! (j + 1))"

text \<open>Both coordinates of a focus lie in \<open>[0, 1]\<close>.\<close>

definition unitFocus :: "ZoomFocus \<Rightarrow> bool" where
  "unitFocus f \<longleftrightarrow> 0 \<le> cx f \<and> cx f \<le> 1 \<and> 0 \<le> cy f \<and> cy f \<le> 1"

text \<open>The static focus of a region and the focus of each of its keyframes lie in \<open>[0, 1]\<close>.\<close>

definition regionFociUnit :: "ZoomRegion \<Rightarrow> bool" where
  "regionFociUnit r \<longleftrightarrow>
     unitFocus (focus r) \<and>
     (case focusKeyframes r of
        None \<Rightarrow> True
      | Some kfs \<Rightarrow> list_all (\<lambda>k. unitFocus (kfFocus k)) kfs)"

text \<open>The overlap test that \<^verbatim>\<open>mergeZoomRegions\<close> applies to two regions.\<close>

definition regionsOverlap :: "ZoomRegion \<Rightarrow> ZoomRegion \<Rightarrow> bool" where
  "regionsOverlap a b \<longleftrightarrow> \<not> (endMs a \<le> startMs b \<or> startMs a \<ge> endMs b)"

text \<open>
  Regions in sequence: each ends no later than every later one starts, and each is
  non-empty.
\<close>

definition chained :: "ZoomRegion list \<Rightarrow> bool" where
  "chained regs \<longleftrightarrow>
     sorted_wrt (\<lambda>a b. endMs a \<le> startMs b) regs \<and> (\<forall>r \<in> set regs. startMs r < endMs r)"

text \<open>
  What \<^verbatim>\<open>ticker\<close> does to one component of the state, as its three
  \<^verbatim>\<open>if (Math.abs(delta) > MIN_DELTA)\<close> statements do; \<open>scale_tickerSmooth\<close> below
  relates it to \<^const>\<open>tickerSmooth\<close>.
\<close>

definition smoothToward :: "real \<Rightarrow> real \<Rightarrow> real" where
  "smoothToward target cur =
     (if \<bar>target - cur\<bar> > MIN_DELTA then cur + (target - cur) * SMOOTHING_FACTOR else target)"

subsection \<open>Sample inputs\<close>

text \<open>A left click and a move on a 1920 x 1080 display, at a time and a normalised position.\<close>

definition clickAt :: "real \<Rightarrow> real \<Rightarrow> real \<Rightarrow> CursorEvent" where
  "clickAt t nx ny =
     \<lparr>evType = Click, timestamp = t, screenX = 1920 * nx, screenY = 1080 * ny,
      normalizedX = nx, normalizedY = ny, button = Some 1, scrollDelta = None\<rparr>"

definition moveAt :: "real \<Rightarrow> real \<Rightarrow> real \<Rightarrow> CursorEvent" where
  "moveAt t nx ny =
     \<lparr>evType = Move, timestamp = t, screenX = 1920 * nx, screenY = 1080 * ny,
      normalizedX = nx, normalizedY = ny, button = None, scrollDelta = None\<rparr>"

definition keyframeAt :: "real \<Rightarrow> real \<Rightarrow> real \<Rightarrow> ZoomFocusKeyframe" where
  "keyframeAt off fx fy = \<lparr>timeOffsetMs = off, kfFocus = \<lparr>cx = fx, cy = fy\<rparr>\<rparr>"

text \<open>A region without keyframes, and the region \<open>[1000, 3000]\<close> with given keyframes.\<close>

definition regionAt :: "string \<Rightarrow> real \<Rightarrow> real \<Rightarrow> ZoomRegion" where
  "regionAt i s e =
     \<lparr>regionId = i, startMs = s, endMs = e, depth = Depth3,
      focus = \<lparr>cx = 0.5, cy = 0.5\<rparr>, focusKeyframes = None\<rparr>"

definition keyframedRegion :: "ZoomFocusKeyframe list \<Rightarrow> ZoomRegion" where
  "keyframedRegion kfs =
     \<lparr>regionId = ''zoom-1'', startMs = 1000, endMs = 3000, depth = Depth3,
      focus = \<lparr>cx = 0.5, cy = 0.5\<rparr>, focusKeyframes = Some kfs\<rparr>"

section \<open>Properties of the capture normalisation\<close>

lemma clamped_ratio_unit:
  fixes b w v :: real
  assumes "0 < w"
  shows "0 \<le> (max b (min v (b + w)) - b) / w \<and> (max b (min v (b + w)) - b) / w \<le> 1"
proof
  have lo: "0 \<le> max b (min v (b + w)) - b" by simp
  with assms show "0 \<le> (max b (min v (b + w)) - b) / w" by simp
  have "max b (min v (b + w)) \<le> b + w" using assms by simp
  then have "max b (min v (b + w)) - b \<le> w" by linarith
  with assms show "(max b (min v (b + w)) - b) / w \<le> 1" by simp
qed

text \<open>
  C9. For every raw coordinate pair, also one outside the display, and every resolved
  display rectangle of positive width and height, both normalised coordinates lie in
  \<open>[0, 1]\<close>.
\<close>

theorem normalizeCoordinates_unit_range:
  assumes "0 < width b" and "0 < height b"
  shows "0 \<le> fst (normalizeCoordinates (Some b) px py) \<and>
         fst (normalizeCoordinates (Some b) px py) \<le> 1 \<and>
         0 \<le> snd (normalizeCoordinates (Some b) px py) \<and>
         snd (normalizeCoordinates (Some b) px py) \<le> 1"
  using clamped_ratio_unit [OF assms(1), of "boundsX b" px]
        clamped_ratio_unit [OF assms(2), of "boundsY b" py]
  by (simp add: normalizeCoordinates_def Let_def)

theorem normalizeCoordinates_unit_range_witness:
  "0 < width \<lparr>boundsX = 0, boundsY = 0, width = 1920, height = 1080\<rparr> \<and>
   0 < height \<lparr>boundsX = 0, boundsY = 0, width = 1920, height = 1080\<rparr> \<and>
   normalizeCoordinates (Some \<lparr>boundsX = 0, boundsY = 0, width = 1920, height = 1080\<rparr>) 2500 (- 30) = (1, 0) \<and>
   0 \<le> fst (normalizeCoordinates (Some \<lparr>boundsX = 0, boundsY = 0, width = 1920, height = 1080\<rparr>) 2500 (- 30)) \<and>
   fst (normalizeCoordinates (Some \<lparr>boundsX = 0, boundsY = 0, width = 1920, height = 1080\<rparr>) 2500 (- 30)) \<le> 1 \<and>
   0 \<le> snd (normalizeCoordinates (Some \<lparr>boundsX = 0, boundsY = 0, width = 1920, height = 1080\<rparr>) 2500 (- 30)) \<and>
   snd (normalizeCoordinates (Some \<lparr>boundsX = 0, boundsY = 0, width = 1920, height = 1080\<rparr>) 2500 (- 30)) \<le> 1"
  using normalizeCoordinates_unit_range
          [of "\<lparr>boundsX = 0, boundsY = 0, width = 1920, height = 1080\<rparr>" 2500 "- 30"]
  by (simp add: normalizeCoordinates_def Let_def)

section \<open>Properties of the region strength\<close>

lemma smootherStep_partial:
  assumes "0 < v" and "v < 1"
  shows "0 < smootherStep v \<and> smootherStep v < 1"
proof -
  have c: "clamp01 v = v" using assms by (simp add: clamp01_def)
  have q: "0 < v * (v * 6 - 15) + 10"
  proof -
    have "v * (v * 6 - 15) + 10 = 6 * (v - 5 / 4) ^ 2 + 5 / 8"
      by (simp add: power2_eq_square algebra_simps)
    moreover have "0 \<le> 6 * (v - 5 / 4) ^ 2" by simp
    ultimately show ?thesis by linarith
  qed
  have "0 < v * v * v" using assms by simp
  then have pos: "0 < v * v * v * (v * (v * 6 - 15) + 10)" using q by (rule mult_pos_pos)
  have e: "1 - v * v * v * (v * (v * 6 - 15) + 10) =
           (1 - v) * (1 - v) * (1 - v) * (6 * v * v + 3 * v + 1)"
    by (simp add: algebra_simps)
  have "0 < (1 - v) * (1 - v) * (1 - v)" using assms by simp
  moreover have "0 < 6 * v * v + 3 * v + 1" using assms by (simp add: add_pos_pos)
  ultimately have "0 < (1 - v) * (1 - v) * (1 - v) * (6 * v * v + 3 * v + 1)"
    by (rule mult_pos_pos)
  with e have "v * v * v * (v * (v * 6 - 15) + 10) < 1" by linarith
  with pos c show ?thesis by (simp add: smootherStep_def Let_def)
qed

lemma strength_fade_in:
  assumes "600 < t" and "t < 1000"
  shows "0 < computeRegionStrength (r\<lparr>startMs := 1000, endMs := 3000\<rparr>) t \<and>
         computeRegionStrength (r\<lparr>startMs := 1000, endMs := 3000\<rparr>) t < 1"
proof -
  have a: "0 < (t - 600) / 400" "(t - 600) / 400 < 1" using assms by simp_all
  have "1 \<le> (3400 - t) / 400" using assms by simp
  then have b: "smootherStep ((3400 - t) / 400) = 1"
    by (simp add: smootherStep_def clamp01_def Let_def)
  from smootherStep_partial [OF a] b assms show ?thesis
    by (simp add: computeRegionStrength_def TRANSITION_WINDOW_MS_def Let_def)
qed

text \<open>
  C2, as stated, fails: for the region \<open>[1000, 3000]\<close> and the window 400 the strength
  at time 1000 is not strictly between 0 and 1.
\<close>

theorem strength_at_start_not_partial:
  "\<not> (computeRegionStrength
        \<lparr>regionId = ''r'', startMs = 1000, endMs = 3000, depth = Depth3,
         focus = \<lparr>cx = 0.5, cy = 0.5\<rparr>, focusKeyframes = None\<rparr> 600 = 0 \<and>
      0 < computeRegionStrength
        \<lparr>regionId = ''r'', startMs = 1000, endMs = 3000, depth = Depth3,
         focus = \<lparr>cx = 0.5, cy = 0.5\<rparr>, focusKeyframes = None\<rparr> 1000 \<and>
      computeRegionStrength
        \<lparr>regionId = ''r'', startMs = 1000, endMs = 3000, depth = Depth3,
         focus = \<lparr>cx = 0.5, cy = 0.5\<rparr>, focusKeyframes = None\<rparr> 1000 < 1 \<and>
      computeRegionStrength
        \<lparr>regionId = ''r'', startMs = 1000, endMs = 3000, depth = Depth3,
         focus = \<lparr>cx = 0.5, cy = 0.5\<rparr>, focusKeyframes = None\<rparr> 2000 = 1 \<and>
      computeRegionStrength
        \<lparr>regionId = ''r'', startMs = 1000, endMs = 3000, depth = Depth3,
         focus = \<lparr>cx = 0.5, cy = 0.5\<rparr>, focusKeyframes = None\<rparr> 3400 = 0)"
  by (simp add: computeRegionStrength_def TRANSITION_WINDOW_MS_def smootherStep_def clamp01_def Let_def)

text \<open>
  C2, amended. For a region with \<open>startMs = 1000\<close> and \<open>endMs = 3000\<close> and the
  window 400, the strength is 0 at time 600, exactly 1 at time 1000 (the fade-in ends
  at the start of the region), 1 at time 2000 and 0 at time 3400; it is strictly
  between 0 and 1 at every time strictly between 600 and 1000.
\<close>

theorem strength_single_region:
  "computeRegionStrength (r\<lparr>startMs := 1000, endMs := 3000\<rparr>) 600 = 0 \<and>
   computeRegionStrength (r\<lparr>startMs := 1000, endMs := 3000\<rparr>) 1000 = 1 \<and>
   computeRegionStrength (r\<lparr>startMs := 1000, endMs := 3000\<rparr>) 2000 = 1 \<and>
   computeRegionStrength (r\<lparr>startMs := 1000, endMs := 3000\<rparr>) 3400 = 0 \<and>
   (\<forall>t. 600 < t \<and> t < 1000 \<longrightarrow>
        0 < computeRegionStrength (r\<lparr>startMs := 1000, endMs := 3000\<rparr>) t \<and>
        computeRegionStrength (r\<lparr>startMs := 1000, endMs := 3000\<rparr>) t < 1)"
proof -
  have "computeRegionStrength (r\<lparr>startMs := 1000, endMs := 3000\<rparr>) 600 = 0"
    and "computeRegionStrength (r\<lparr>startMs := 1000, endMs := 3000\<rparr>) 1000 = 1"
    and "computeRegionStrength (r\<lparr>startMs := 1000, endMs := 3000\<rparr>) 2000 = 1"
    and "computeRegionStrength (r\<lparr>startMs := 1000, endMs := 3000\<rparr>) 3400 = 0"
    by (simp_all add: computeRegionStrength_def TRANSITION_WINDOW_MS_def smootherStep_def
          clamp01_def Let_def)
  then show ?thesis using strength_fade_in [of _ r] by blast
qed

theorem strength_single_region_witness:
  "(600 :: real) < 800 \<and> (800 :: real) < 1000 \<and>
   computeRegionStrength
     \<lparr>regionId = ''r'', startMs = 1000, endMs = 3000, depth = Depth3,
      focus = \<lparr>cx = 0.5, cy = 0.5\<rparr>, focusKeyframes = None\<rparr> 800 = 1 / 2 \<and>
   0 < computeRegionStrength
     \<lparr>regionId = ''r'', startMs = 1000, endMs = 3000, depth = Depth3,
      focus = \<lparr>cx = 0.5, cy = 0.5\<rparr>, focusKeyframes = None\<rparr> 800 \<and>
   computeRegionStrength
     \<lparr>regionId = ''r'', startMs = 1000, endMs = 3000, depth = Depth3,
      focus = \<lparr>cx = 0.5, cy = 0.5\<rparr>, focusKeyframes = None\<rparr> 800 < 1"
  using strength_single_region
          [of "\<lparr>regionId = ''r'', startMs = 1000, endMs = 3000, depth = Depth3,
                focus = \<lparr>cx = 0.5, cy = 0.5\<rparr>, focusKeyframes = None\<rparr>"]
  by (simp add: computeRegionStrength_def TRANSITION_WINDOW_MS_def smootherStep_def clamp01_def Let_def)

section \<open>Properties of the auto-zoom synthesis\<close>

lemma spreadConfig_minInterval_500:
  "spreadConfig DEFAULT_AUTO_ZOOM_CONFIG (emptyConfig\<lparr>minIntervalMsOpt := Some 500\<rparr>) =
   DEFAULT_AUTO_ZOOM_CONFIG"
  by (simp add: spreadConfig_def DEFAULT_AUTO_ZOOM_CONFIG_def emptyConfig_def)

lemma processClick_debounced:
  "timestamp c - lastEnd < minIntervalMs cfg \<Longrightarrow> processClick evs vd cfg n lastEnd c = None"
  by (simp add: processClick_def)

lemma processClick_region:
  assumes "processClick evs vd cfg n lastEnd c = Some (r, e)"
  shows "lastEnd + minIntervalMs cfg \<le> timestamp c \<and> timestamp c + 300 \<le> e \<and>
         startMs r = Math_round (timestamp c) \<and> endMs r = Math_round e"
  using assms by (auto simp: processClick_def Let_def split: if_splits)

text \<open>
  C1, as stated, fails: with \<open>minIntervalMs = 500\<close>, the other settings at their
  defaults, clicks at 0, 100 and 600 and a video of 10 s, the start times of the regions
  returned are not 0 and 600.
\<close>

theorem debounce_example_not_two_regions:
  "map startMs
     (fst (generateAutoZoomRegions [clickAt 0 0.5 0.5, clickAt 100 0.5 0.5, clickAt 600 0.5 0.5]
            10000 0 (emptyConfig\<lparr>minIntervalMsOpt := Some 500\<rparr>))) \<noteq> [0, 600]"
  by (simp add: generateAutoZoomRegions_def spreadConfig_def emptyConfig_def isPrimaryClick_def
        clickAt_def processClick_def DEFAULT_AUTO_ZOOM_CONFIG_def Let_def Math_round_def)

text \<open>
  C1, amended. With \<open>minIntervalMs = 500\<close>, the other settings at their defaults, an
  event stream whose primary-button clicks are at 0, 100 and 600, and a video of at
  least 300 ms, exactly one region is returned: it starts at 0 and ends at
  \<open>Math.round(min(2000, videoDurationMs))\<close>. The clicks at 100 and 600 are both
  dropped, each being less than \<open>minIntervalMs\<close> after the end of that zoom.
\<close>

theorem debounce_example_one_region:
  assumes "map timestamp (filter isPrimaryClick evs) = [0, 100, 600]" and "300 \<le> vd"
  shows "map startMs
           (fst (generateAutoZoomRegions evs vd n (emptyConfig\<lparr>minIntervalMsOpt := Some 500\<rparr>))) = [0] \<and>
         map endMs
           (fst (generateAutoZoomRegions evs vd n (emptyConfig\<lparr>minIntervalMsOpt := Some 500\<rparr>))) =
           [Math_round (min 2000 vd)]"
proof -
  from assms(1) obtain c0 c1 c2 where cs: "filter isPrimaryClick evs = [c0, c1, c2]"
    and t: "timestamp c0 = 0" "timestamp c1 = 100" "timestamp c2 = 600"
    by (auto simp: map_eq_Cons_conv)
  let ?cfg = DEFAULT_AUTO_ZOOM_CONFIG
  let ?e = "min 2000 vd"
  have e: "300 \<le> ?e" using assms(2) by simp
  have m: "minIntervalMs ?cfg = 500" by (simp add: DEFAULT_AUTO_ZOOM_CONFIG_def)
  obtain r where p0: "processClick evs vd ?cfg n (- 500) c0 = Some (r, ?e)"
    and r: "startMs r = 0" "endMs r = Math_round ?e"
    using e t by (simp add: processClick_def DEFAULT_AUTO_ZOOM_CONFIG_def Let_def Math_round_def)
  have "timestamp c1 - ?e < minIntervalMs ?cfg" using e t m by linarith
  then have p1: "processClick evs vd ?cfg (Suc n) ?e c1 = None" by (rule processClick_debounced)
  have "timestamp c2 - ?e < minIntervalMs ?cfg" using e t m by linarith
  then have p2: "processClick evs vd ?cfg (Suc n) ?e c2 = None" by (rule processClick_debounced)
  have loop: "zoomLoop evs vd ?cfg [c0, c1, c2] [] n (- minIntervalMs ?cfg) = ([r], n + 1)"
    by (simp add: m p0 p1 p2)
  show ?thesis
    by (simp add: generateAutoZoomRegions_def spreadConfig_minInterval_500 Let_def cs loop r
          del: zoomLoop.simps)
qed

theorem debounce_example_one_region_witness:
  "map timestamp
     (filter isPrimaryClick [clickAt 0 0.5 0.5, clickAt 100 0.5 0.5, clickAt 600 0.5 0.5]) =
     [0, 100, 600] \<and>
   (300 :: real) \<le> 10000 \<and>
   map startMs
     (fst (generateAutoZoomRegions [clickAt 0 0.5 0.5, clickAt 100 0.5 0.5, clickAt 600 0.5 0.5]
            10000 0 (emptyConfig\<lparr>minIntervalMsOpt := Some 500\<rparr>))) = [0] \<and>
   map endMs
     (fst (generateAutoZoomRegions [clickAt 0 0.5 0.5, clickAt 100 0.5 0.5, clickAt 600 0.5 0.5]
            10000 0 (emptyConfig\<lparr>minIntervalMsOpt := Some 500\<rparr>))) = [2000]"
  using debounce_example_one_region
          [of "[clickAt 0 0.5 0.5, clickAt 100 0.5 0.5, clickAt 600 0.5 0.5]" 10000 0]
  by (simp add: isPrimaryClick_def clickAt_def Math_round_def)

subsection \<open>Keyframe reduction\<close>

lemma focusDistance_same_cy: "cy a = cy b \<Longrightarrow> focusDistance a b = \<bar>cx a - cx b\<bar>"
  by (simp add: focusDistance_def)

lemma sampleMoves_stationary:
  "\<forall>m \<in> set ms. focusDistance (eventFocus m) f < keyframeMinDistance cfg \<Longrightarrow>
   sampleMoves cfg s ms kfs f lst = kfs"
  by (induction ms) (simp_all add: Let_def)

lemma generateFocusKeyframes_stationary:
  assumes near: "\<forall>m \<in> set (movesDuringZoom evs s e).
                   focusDistance (eventFocus m) f < keyframeMinDistance cfg"
    and tail: "movesDuringZoom evs s e \<noteq> [] \<longrightarrow>
               timestamp (last (movesDuringZoom evs s e)) - s \<le> 50 \<or>
               focusDistance (eventFocus (last (movesDuringZoom evs s e))) f
                 < keyframeMinDistance cfg * 0.5"
  shows "generateFocusKeyframes evs s e f cfg = [\<lparr>timeOffsetMs = 0, kfFocus = f\<rparr>]"
proof (cases "movesDuringZoom evs s e = []")
  case True
  then show ?thesis by (simp add: generateFocusKeyframes_def)
next
  case False
  have sm: "sampleMoves cfg s (movesDuringZoom evs s e) [\<lparr>timeOffsetMs = 0, kfFocus = f\<rparr>] f s =
            [\<lparr>timeOffsetMs = 0, kfFocus = f\<rparr>]"
    using near by (rule sampleMoves_stationary)
  from tail False show ?thesis
    by (auto simp: generateFocusKeyframes_def Let_def sm)
qed

text \<open>
  C4, as stated, fails: after a click at \<open>(0.5, 0.5)\<close> at time 0, a single move at
  time 100 to \<open>(0.507, 0.5)\<close> lies within \<open>keyframeMinDistance = 0.01\<close> of the click
  focus, and the region emitted has two focus keyframes.
\<close>

theorem near_move_still_gives_keyframes:
  "focusDistance (eventFocus (moveAt 100 0.507 0.5)) (eventFocus (clickAt 0 0.5 0.5))
     < keyframeMinDistance DEFAULT_AUTO_ZOOM_CONFIG \<and>
   map focusKeyframes
     (fst (generateAutoZoomRegions [clickAt 0 0.5 0.5, moveAt 100 0.507 0.5] 10000 0 emptyConfig)) =
     [Some [keyframeAt 0 0.5 0.5, keyframeAt 100 0.507 0.5]]"
proof -
  have d: "focusDistance \<lparr>cx = 507 / 1000, cy = 1 / 2\<rparr> \<lparr>cx = 1 / 2, cy = 1 / 2\<rparr> = 7 / 1000"
    by (simp add: focusDistance_same_cy)
  show ?thesis
    by (simp add: generateAutoZoomRegions_def spreadConfig_def emptyConfig_def
          DEFAULT_AUTO_ZOOM_CONFIG_def isPrimaryClick_def clickAt_def moveAt_def processClick_def
          generateFocusKeyframes_def movesDuringZoom_def eventFocus_def d keyframeAt_def Let_def)
qed

text \<open>
  C4, amended. For every accepted click (the loop body emits a region \<open>r\<close> for it and
  sets \<open>lastZoomEndMs\<close> to \<open>e\<close>) whose zoom window \<open>[timestamp, e]\<close> contains only move
  events strictly within \<open>keyframeMinDistance\<close> of the initial click focus, and whose
  last move event in the window is either at most 50 ms after the click or strictly
  within half of \<open>keyframeMinDistance\<close> of the initial focus, the emitted region has no
  \<open>focusKeyframes\<close>, and its focus is the click's clamped position.
\<close>

theorem stationary_click_no_keyframes:
  assumes acc: "processClick evs vd cfg n lastEnd c = Some (r, e)"
    and near: "\<forall>m \<in> set (movesDuringZoom evs (timestamp c) e).
                 focusDistance (eventFocus m) (eventFocus c) < keyframeMinDistance cfg"
    and tail: "movesDuringZoom evs (timestamp c) e \<noteq> [] \<longrightarrow>
               timestamp (last (movesDuringZoom evs (timestamp c) e)) - timestamp c \<le> 50 \<or>
               focusDistance (eventFocus (last (movesDuringZoom evs (timestamp c) e))) (eventFocus c)
                 < keyframeMinDistance cfg * 0.5"
  shows "focusKeyframes r = None \<and> focus r = eventFocus c"
proof -
  from acc have e: "e = min (timestamp c + zoomDurationMs cfg) vd"
    by (auto simp: processClick_def Let_def split: if_splits)
  have "generateFocusKeyframes evs (timestamp c) e (eventFocus c) cfg =
          [\<lparr>timeOffsetMs = 0, kfFocus = eventFocus c\<rparr>]"
    using near tail by (rule generateFocusKeyframes_stationary)
  with acc e show ?thesis
    by (auto simp: processClick_def Let_def split: if_splits)
qed

theorem stationary_click_no_keyframes_witness:
  "processClick [clickAt 0 0.5 0.5, moveAt 100 0.504 0.5] 10000 DEFAULT_AUTO_ZOOM_CONFIG 0 (- 500)
     (clickAt 0 0.5 0.5) =
   Some (\<lparr>regionId = ''auto-zoom-1'', startMs = 0, endMs = 2000, depth = Depth3,
          focus = \<lparr>cx = 0.5, cy = 0.5\<rparr>, focusKeyframes = None\<rparr>, 2000)"
proof -
  have d: "focusDistance \<lparr>cx = 63 / 125, cy = 1 / 2\<rparr> \<lparr>cx = 1 / 2, cy = 1 / 2\<rparr> = 1 / 250"
    by (simp add: focusDistance_same_cy)
  let ?evs = "[clickAt 0 0.5 0.5, moveAt 100 0.504 0.5]"
  let ?c = "clickAt 0 0.5 0.5"
  obtain r where acc: "processClick ?evs 10000 DEFAULT_AUTO_ZOOM_CONFIG 0 (- 500) ?c = Some (r, 2000)"
    and r: "r = \<lparr>regionId = ''auto-zoom-1'', startMs = 0, endMs = 2000, depth = Depth3,
                 focus = \<lparr>cx = 0.5, cy = 0.5\<rparr>, focusKeyframes = focusKeyframes r\<rparr>"
    by (simp add: processClick_def DEFAULT_AUTO_ZOOM_CONFIG_def clickAt_def eventFocus_def Let_def
          Math_round_def decimalString.simps)
  have mv: "movesDuringZoom ?evs (timestamp ?c) 2000 = [moveAt 100 0.504 0.5]"
    by (simp add: movesDuringZoom_def clickAt_def moveAt_def)
  have near: "\<forall>m \<in> set (movesDuringZoom ?evs (timestamp ?c) 2000).
                focusDistance (eventFocus m) (eventFocus ?c) < keyframeMinDistance DEFAULT_AUTO_ZOOM_CONFIG"
    unfolding mv by (simp add: eventFocus_def moveAt_def clickAt_def d DEFAULT_AUTO_ZOOM_CONFIG_def)
  have tail: "movesDuringZoom ?evs (timestamp ?c) 2000 \<noteq> [] \<longrightarrow>
              timestamp (last (movesDuringZoom ?evs (timestamp ?c) 2000)) - timestamp ?c \<le> 50 \<or>
              focusDistance (eventFocus (last (movesDuringZoom ?evs (timestamp ?c) 2000))) (eventFocus ?c)
                < keyframeMinDistance DEFAULT_AUTO_ZOOM_CONFIG * 0.5"
    unfolding mv by (simp add: eventFocus_def moveAt_def clickAt_def d DEFAULT_AUTO_ZOOM_CONFIG_def)
  from stationary_click_no_keyframes [OF acc near tail] have "focusKeyframes r = None" by simp
  with acc r show ?thesis by simp
qed

subsection \<open>Order and separation of the generated regions\<close>

lemma Math_round_mono: "a \<le> b \<Longrightarrow> Math_round a \<le> Math_round b"
  by (simp add: Math_round_def floor_mono)

lemma Math_round_gap:
  assumes "a + 300 \<le> b"
  shows "Math_round a + 300 \<le> Math_round b"
proof -
  have "Math_round a + 300 = Math_round (a + 300)"
  proof -
    have "\<lfloor>a + 300 + 1 / 2\<rfloor> = \<lfloor>a + 1 / 2\<rfloor> + 300"
      using floor_add_int [of "a + 1 / 2" 300] by (simp add: add.commute add.left_commute)
    then show ?thesis by (simp add: Math_round_def)
  qed
  also have "\<dots> \<le> Math_round b" using assms by (rule Math_round_mono)
  finally show ?thesis .
qed

lemma zoomLoop_chained:
  assumes "0 \<le> minIntervalMs cfg"
  shows "chained regs \<Longrightarrow> \<forall>r \<in> set regs. endMs r \<le> Math_round lastEnd \<Longrightarrow>
         chained (fst (zoomLoop evs vd cfg clicks regs n lastEnd))"
proof (induction clicks arbitrary: regs n lastEnd)
  case Nil
  then show ?case by simp
next
  case (Cons c clicks)
  show ?case
  proof (cases "processClick evs vd cfg n lastEnd c")
    case None
    with Cons show ?thesis by simp
  next
    case (Some p)
    obtain r e where p: "p = (r, e)" by (cases p)
    from processClick_region [OF Some [unfolded p]] assms
    have t: "lastEnd \<le> timestamp c" "timestamp c + 300 \<le> e"
      and se: "startMs r = Math_round (timestamp c)" "endMs r = Math_round e" by auto
    have a: "Math_round lastEnd \<le> startMs r" unfolding se using t(1) by (rule Math_round_mono)
    have b: "startMs r + 300 \<le> endMs r" unfolding se using t(2) by (rule Math_round_gap)
    have c1: "chained (regs @ [r])"
      using Cons.prems a b by (auto simp: chained_def sorted_wrt_append)
    have c2: "\<forall>x \<in> set (regs @ [r]). endMs x \<le> Math_round e"
      using Cons.prems(2) a b se by auto
    from Cons.IH [OF c1 c2] Some p show ?thesis by simp
  qed
qed

lemma chained_strict: "chained regs \<Longrightarrow> sorted_wrt (\<lambda>a b. startMs a < startMs b) regs"
  unfolding chained_def by (induction regs) auto

lemma generated_regions_chained:
  assumes "0 \<le> minIntervalMs (spreadConfig DEFAULT_AUTO_ZOOM_CONFIG config)"
  shows "chained (fst (generateAutoZoomRegions evs vd n config))"
proof -
  let ?cfg = "spreadConfig DEFAULT_AUTO_ZOOM_CONFIG config"
  have "chained (fst (zoomLoop evs vd ?cfg (filter isPrimaryClick evs) [] n (- minIntervalMs ?cfg)))"
    using assms by (intro zoomLoop_chained) (simp_all add: chained_def)
  then show ?thesis
    by (simp add: generateAutoZoomRegions_def Let_def chained_def)
qed

text \<open>
  C10. For every event list sorted ascending by timestamp and every configuration whose
  \<open>minIntervalMs\<close> is positive, the regions returned by \<open>generateAutoZoomRegions\<close> are
  pairwise non-overlapping (no two satisfy the overlap test
  \<open>\<not> (a.endMs \<le> b.startMs \<or> a.startMs \<ge> b.endMs)\<close> of the merge), are in strictly increasing order of
  \<open>startMs\<close>, and each starts no earlier than the \<open>endMs\<close> of the one before it (indeed of
  every earlier one). The order of the input is not needed for this.
\<close>

theorem generated_regions_disjoint_ordered:
  assumes "sorted (map timestamp evs)"
    and "0 < minIntervalMs (spreadConfig DEFAULT_AUTO_ZOOM_CONFIG config)"
  shows "sorted_wrt (\<lambda>a b. \<not> regionsOverlap a b) (fst (generateAutoZoomRegions evs vd n config)) \<and>
         sorted_wrt (\<lambda>a b. startMs a < startMs b) (fst (generateAutoZoomRegions evs vd n config)) \<and>
         sorted_wrt (\<lambda>a b. endMs a \<le> startMs b) (fst (generateAutoZoomRegions evs vd n config)) \<and>
         (\<forall>i. i + 1 < length (fst (generateAutoZoomRegions evs vd n config)) \<longrightarrow>
              endMs (fst (generateAutoZoomRegions evs vd n config) ! i) \<le>
              startMs (fst (generateAutoZoomRegions evs vd n config) ! (i + 1)))"
proof -
  let ?R = "fst (generateAutoZoomRegions evs vd n config)"
  have ch: "chained ?R" using assms(2) by (intro generated_regions_chained) simp
  then have 1: "sorted_wrt (\<lambda>a b. endMs a \<le> startMs b) ?R" by (simp add: chained_def)
  then have 2: "sorted_wrt (\<lambda>a b. \<not> regionsOverlap a b) ?R"
    by (rule sorted_wrt_mono_rel [rotated]) (simp add: regionsOverlap_def)
  have 3: "sorted_wrt (\<lambda>a b. startMs a < startMs b) ?R" using ch by (rule chained_strict)
  have 4: "\<forall>i. i + 1 < length ?R \<longrightarrow> endMs (?R ! i) \<le> startMs (?R ! (i + 1))"
    using 1 by (simp add: sorted_wrt_iff_nth_less)
  from 1 2 3 4 show ?thesis by blast
qed

theorem generated_regions_disjoint_ordered_witness:
  "sorted (map timestamp [clickAt 0 0.5 0.5, clickAt 100 0.5 0.5, clickAt 3000 0.2 0.2]) \<and>
   0 < minIntervalMs (spreadConfig DEFAULT_AUTO_ZOOM_CONFIG emptyConfig) \<and>
   map (\<lambda>r. (startMs r, endMs r))
     (fst (generateAutoZoomRegions [clickAt 0 0.5 0.5, clickAt 100 0.5 0.5, clickAt 3000 0.2 0.2]
            10000 0 emptyConfig)) = [(0, 2000), (3000, 5000)] \<and>
   sorted_wrt (\<lambda>a b. endMs a \<le> startMs b)
     (fst (generateAutoZoomRegions [clickAt 0 0.5 0.5, clickAt 100 0.5 0.5, clickAt 3000 0.2 0.2]
            10000 0 emptyConfig))"
  using generated_regions_disjoint_ordered
          [of "[clickAt 0 0.5 0.5, clickAt 100 0.5 0.5, clickAt 3000 0.2 0.2]" emptyConfig 10000 0]
  by (simp add: generateAutoZoomRegions_def spreadConfig_def emptyConfig_def isPrimaryClick_def
        clickAt_def processClick_def DEFAULT_AUTO_ZOOM_CONFIG_def Let_def Math_round_def)

section \<open>Properties of the region merge\<close>

lemma pushAutoRegions_eq:
  "pushAutoRegions manual auto merged = merged @ filter (\<lambda>a. \<not> overlapsManual a manual) auto"
  by (induction auto arbitrary: merged) simp_all

lemma overlapsManual_iff:
  "overlapsManual a manual \<longleftrightarrow>
   (\<exists>m \<in> set manual. \<not> (endMs a \<le> startMs m \<or> startMs a \<ge> endMs m))"
  by (simp add: overlapsManual_def list_ex_iff)

text \<open>
  C7. For all lists of auto and manual regions, \<open>mergeZoomRegions\<close> returns exactly the
  manual regions together with the auto regions that overlap no manual region (overlap
  being \<open>\<not> (auto.endMs \<le> manual.startMs \<or> auto.startMs \<ge> manual.endMs)\<close>), sorted by
  \<open>startMs\<close> ascending: the result is the stable sort of that concatenation, it is
  sorted, and it has the same elements with the same multiplicities. In particular an
  auto region \<open>[0, 2000]\<close> merged with a manual region \<open>[500, 1500]\<close> gives the manual
  region alone.
\<close>

theorem mergeZoomRegions_spec:
  "mergeZoomRegions auto manual =
     sort_key startMs
       (manual @
        filter (\<lambda>a. \<not> (\<exists>m \<in> set manual. \<not> (endMs a \<le> startMs m \<or> startMs a \<ge> endMs m))) auto) \<and>
   sorted (map startMs (mergeZoomRegions auto manual)) \<and>
   mset (mergeZoomRegions auto manual) =
     mset manual +
     mset (filter (\<lambda>a. \<not> (\<exists>m \<in> set manual. \<not> (endMs a \<le> startMs m \<or> startMs a \<ge> endMs m))) auto) \<and>
   mergeZoomRegions [a\<lparr>startMs := 0, endMs := 2000\<rparr>] [m\<lparr>startMs := 500, endMs := 1500\<rparr>] =
     [m\<lparr>startMs := 500, endMs := 1500\<rparr>]"
proof -
  have f: "(\<lambda>a. \<not> overlapsManual a manual) =
           (\<lambda>a. \<not> (\<exists>m \<in> set manual. \<not> (endMs a \<le> startMs m \<or> startMs a \<ge> endMs m)))"
    by (simp only: overlapsManual_iff)
  have e: "mergeZoomRegions auto manual =
     sort_key startMs
       (manual @
        filter (\<lambda>a. \<not> (\<exists>m \<in> set manual. \<not> (endMs a \<le> startMs m \<or> startMs a \<ge> endMs m))) auto)"
    by (simp only: mergeZoomRegions_def pushAutoRegions_eq f)
  have s: "sorted (map startMs (mergeZoomRegions auto manual))"
    by (simp add: mergeZoomRegions_def)
  have m: "mset (mergeZoomRegions auto manual) =
     mset manual +
     mset (filter (\<lambda>a. \<not> (\<exists>m \<in> set manual. \<not> (endMs a \<le> startMs m \<or> startMs a \<ge> endMs m))) auto)"
    unfolding e by simp
  have x: "mergeZoomRegions [a\<lparr>startMs := 0, endMs := 2000\<rparr>] [m\<lparr>startMs := 500, endMs := 1500\<rparr>] =
           [m\<lparr>startMs := 500, endMs := 1500\<rparr>]"
    by (simp add: mergeZoomRegions_def overlapsManual_def)
  from e s m x show ?thesis by blast
qed

theorem mergeZoomRegions_spec_witness:
  "mergeZoomRegions [regionAt ''auto-zoom-1'' 0 2000, regionAt ''auto-zoom-2'' 3000 4000,
                     regionAt ''auto-zoom-3'' 100 400]
     [regionAt ''zoom-1'' 500 1500] =
   [regionAt ''auto-zoom-3'' 100 400, regionAt ''zoom-1'' 500 1500, regionAt ''auto-zoom-2'' 3000 4000] \<and>
   mergeZoomRegions [regionAt ''auto-zoom-1'' 0 2000] [regionAt ''zoom-1'' 500 1500] =
   [regionAt ''zoom-1'' 500 1500]"
  using mergeZoomRegions_spec
          [of "[regionAt ''auto-zoom-1'' 0 2000, regionAt ''auto-zoom-2'' 3000 4000,
                regionAt ''auto-zoom-3'' 100 400]"
              "[regionAt ''zoom-1'' 500 1500]" "regionAt ''auto-zoom-1'' 0 2000"
              "regionAt ''zoom-1'' 500 1500"]
  by (simp add: regionAt_def)

section \<open>Properties of the focus interpolation\<close>

lemma exists_bracket:
  fixes f :: "nat \<Rightarrow> real"
  shows "i < n \<Longrightarrow> f i \<le> v \<Longrightarrow> v < f n \<Longrightarrow> \<exists>j. i \<le> j \<and> j < n \<and> f j \<le> v \<and> v < f (Suc j)"
proof (induction n)
  case 0
  then show ?case by simp
next
  case (Suc n)
  show ?case
  proof (cases "v < f n")
    case True
    with Suc.prems have "i < n" by (cases "i = n") auto
    with Suc.IH Suc.prems True obtain j where "i \<le> j" "j < n" "f j \<le> v" "v < f (Suc j)" by blast
    then show ?thesis by (intro exI [of _ j]) simp
  next
    case False
    with Suc.prems show ?thesis by (intro exI [of _ n]) simp
  qed
qed

text \<open>The search loop returns the first bracketing index from \<open>i\<close> on, when there is one.\<close>

lemma keyframeIndexLoop_finds:
  "\<exists>j. i \<le> j \<and> bracketsAt kfs off j \<Longrightarrow>
   i \<le> keyframeIndexLoop kfs off i \<and> bracketsAt kfs off (keyframeIndexLoop kfs off i) \<and>
   (\<forall>m. i \<le> m \<and> m < keyframeIndexLoop kfs off i \<longrightarrow> \<not> bracketsAt kfs off m)"
proof (induction kfs off i rule: keyframeIndexLoop.induct)
  case (1 kfs off i)
  from "1.prems" obtain j where j: "i \<le> j" "bracketsAt kfs off j" by blast
  then have len: "i + 1 < length kfs" by (simp add: bracketsAt_def)
  show ?case
  proof (cases "timeOffsetMs (kfs ! i) \<le> off \<and> off < timeOffsetMs (kfs ! (i + 1))")
    case True
    with len show ?thesis by (simp add: keyframeIndexLoop.simps [of kfs off i] bracketsAt_def)
  next
    case False
    with j len have "i \<noteq> j" by (auto simp: bracketsAt_def)
    with j have "\<exists>j. i + 1 \<le> j \<and> bracketsAt kfs off j" by (intro exI [of _ j]) simp
    with "1.IH" len False have ih: "i + 1 \<le> keyframeIndexLoop kfs off (i + 1) \<and>
        bracketsAt kfs off (keyframeIndexLoop kfs off (i + 1)) \<and>
        (\<forall>m. i + 1 \<le> m \<and> m < keyframeIndexLoop kfs off (i + 1) \<longrightarrow> \<not> bracketsAt kfs off m)"
      by simp
    have eq: "keyframeIndexLoop kfs off i = keyframeIndexLoop kfs off (i + 1)"
      using len False by (subst keyframeIndexLoop.simps) auto
    have ni: "\<not> bracketsAt kfs off i" using False by (simp add: bracketsAt_def)
    show ?thesis unfolding eq using ih ni
      by (metis Suc_eq_plus1 Suc_leI le_neq_implies_less le_trans le_add1)
  qed
qed

lemma catmullRom_at_knot: "catmullRomInterpolate p0 p1 p2 p3 0 tension = p1"
  by (simp add: catmullRomInterpolate_def)

text \<open>
  With tension 0.5 and the parameter in \<open>[0, 1]\<close>, the spline over four values of
  \<open>[0, 1]\<close> stays within an eighth of that interval.
\<close>

lemma catmullRom_bounds:
  assumes t: "0 \<le> t" "t \<le> 1"
    and p: "0 \<le> p0" "p0 \<le> 1" "0 \<le> p1" "p1 \<le> 1" "0 \<le> p2" "p2 \<le> 1" "0 \<le> p3" "p3 \<le> 1"
  shows "- (1 / 8) \<le> catmullRomInterpolate p0 p1 p2 p3 t 0.5 \<and>
         catmullRomInterpolate p0 p1 p2 p3 t 0.5 \<le> 9 / 8"
proof -
  define A where "A = t * ((1 - t) * (1 - t))"
  define B where "B = t * t * (1 - t)"
  define H0 where "H0 = (1 - t) * (1 - t) * (1 + 2 * t)"
  define H1 where "H1 = t * t * (3 - 2 * t)"
  have A0: "0 \<le> A" using t by (simp add: A_def)
  have B0: "0 \<le> B" using t by (simp add: B_def)
  have H00: "0 \<le> H0" using t by (simp add: H0_def)
  have H10: "0 \<le> H1" using t by (simp add: H1_def)
  have sumH: "H0 + H1 = 1" by (simp add: H0_def H1_def algebra_simps)
  have sumAB: "A + B = t * (1 - t)" by (simp add: A_def B_def algebra_simps)
  have "0 \<le> (t - 1 / 2) * (t - 1 / 2)" by simp
  then have q: "t * (1 - t) \<le> 1 / 4" by (simp add: algebra_simps)
  have cr: "catmullRomInterpolate p0 p1 p2 p3 t 0.5 =
            H0 * p1 + A * ((p2 - p0) / 2) + H1 * p2 + B * ((p1 - p3) / 2)"
    by (simp add: catmullRomInterpolate_def Let_def A_def B_def H0_def H1_def field_simps)
  have u1: "H0 * p1 \<le> H0 * 1" using H00 p by (intro mult_left_mono) simp_all
  have u2: "A * ((p2 - p0) / 2) \<le> A * (1 / 2)" using A0 p by (intro mult_left_mono) simp_all
  have u3: "H1 * p2 \<le> H1 * 1" using H10 p by (intro mult_left_mono) simp_all
  have u4: "B * ((p1 - p3) / 2) \<le> B * (1 / 2)" using B0 p by (intro mult_left_mono) simp_all
  have l1: "0 \<le> H0 * p1" using H00 p by simp
  have l2: "A * (- (1 / 2)) \<le> A * ((p2 - p0) / 2)" using A0 p by (intro mult_left_mono) simp_all
  have l3: "0 \<le> H1 * p2" using H10 p by simp
  have l4: "B * (- (1 / 2)) \<le> B * ((p1 - p3) / 2)" using B0 p by (intro mult_left_mono) simp_all
  from u1 u2 u3 u4 sumH sumAB q
  have up: "H0 * p1 + A * ((p2 - p0) / 2) + H1 * p2 + B * ((p1 - p3) / 2) \<le> 9 / 8"
    by simp
  from l1 l2 l3 l4 sumAB q
  have lo: "- (1 / 8) \<le> H0 * p1 + A * ((p2 - p0) / 2) + H1 * p2 + B * ((p1 - p3) / 2)"
    by simp
  from up lo show ?thesis unfolding cr by simp
qed

text \<open>
  Strictly between the first and the last keyframe offset the function reaches the
  spline, at the first bracketing index; no index is read out of range.
\<close>

lemma interpolate_inner:
  assumes kfs: "focusKeyframes r = Some kfs"
    and lo: "timeOffsetMs (kfs ! 0) < t - startMs r"
    and hi: "t - startMs r < timeOffsetMs (kfs ! (length kfs - 1))"
  shows "\<exists>k. bracketsAt kfs (t - startMs r) k \<and>
             (\<forall>m < k. \<not> bracketsAt kfs (t - startMs r) m) \<and>
             interpolateFocusFromKeyframes r t =
               (let p1 = kfs ! k; p2 = kfs ! (k + 1);
                    p0 = (if k > 0 then kfs ! (k - 1) else p1);
                    p3 = (if k + 2 < length kfs then kfs ! (k + 2) else p2);
                    u = (t - startMs r - timeOffsetMs p1) / (timeOffsetMs p2 - timeOffsetMs p1)
                in Inr \<lparr>cx = catmullRomInterpolate (cx (kfFocus p0)) (cx (kfFocus p1))
                               (cx (kfFocus p2)) (cx (kfFocus p3)) u 0.5,
                         cy = catmullRomInterpolate (cy (kfFocus p0)) (cy (kfFocus p1))
                               (cy (kfFocus p2)) (cy (kfFocus p3)) u 0.5\<rparr>)"
proof -
  let ?off = "t - startMs r"
  let ?f = "\<lambda>i. timeOffsetMs (kfs ! i)"
  from lo hi have pos: "0 < length kfs - 1" by (cases "length kfs - 1 = 0") auto
  then have ne: "kfs \<noteq> []" by auto
  from exists_bracket [of 0 "length kfs - 1" ?f ?off] pos lo hi
  obtain j where "j < length kfs - 1" "?f j \<le> ?off" "?off < ?f (Suc j)" by auto
  then have "bracketsAt kfs ?off j" by (simp add: bracketsAt_def)
  then have "\<exists>j. 0 \<le> j \<and> bracketsAt kfs ?off j" by blast
  from keyframeIndexLoop_finds [OF this]
  have br: "bracketsAt kfs ?off (keyframeIndexLoop kfs ?off 0)"
    and first: "\<forall>m < keyframeIndexLoop kfs ?off 0. \<not> bracketsAt kfs ?off m" by auto
  let ?k = "keyframeIndexLoop kfs ?off 0"
  from br have len: "?k + 1 < length kfs"
    and seg: "timeOffsetMs (kfs ! ?k) < timeOffsetMs (kfs ! (?k + 1))"
    by (auto simp: bracketsAt_def)
  have "interpolateFocusFromKeyframes r t =
               (let p1 = kfs ! ?k; p2 = kfs ! (?k + 1);
                    p0 = (if ?k > 0 then kfs ! (?k - 1) else p1);
                    p3 = (if ?k + 2 < length kfs then kfs ! (?k + 2) else p2);
                    u = (t - startMs r - timeOffsetMs p1) / (timeOffsetMs p2 - timeOffsetMs p1)
                in Inr \<lparr>cx = catmullRomInterpolate (cx (kfFocus p0)) (cx (kfFocus p1))
                               (cx (kfFocus p2)) (cx (kfFocus p3)) u 0.5,
                         cy = catmullRomInterpolate (cy (kfFocus p0)) (cy (kfFocus p1))
                               (cy (kfFocus p2)) (cy (kfFocus p3)) u 0.5\<rparr>)"
    using kfs ne lo hi len seg
    by (simp add: interpolateFocusFromKeyframes_def Let_def)
  with br first show ?thesis by blast
qed

text \<open>
  C6. For every region with at least two focus keyframes whose \<open>timeOffsetMs\<close> are
  strictly increasing, the interpolation at the time \<open>startMs + timeOffsetMs\<close> of any
  keyframe returns that keyframe's focus exactly (over the reals, as all of this
  development).
\<close>

theorem interpolate_at_keyframe:
  assumes kfs: "focusKeyframes r = Some kfs"
    and two: "2 \<le> length kfs"
    and inc: "sorted_wrt (<) (map timeOffsetMs kfs)"
    and k: "k < length kfs"
  shows "interpolateFocusFromKeyframes r (startMs r + timeOffsetMs (kfs ! k)) =
         Inr (kfFocus (kfs ! k))"
proof -
  let ?t = "startMs r + timeOffsetMs (kfs ! k)"
  have off: "?t - startMs r = timeOffsetMs (kfs ! k)" by simp
  from two have ne: "kfs \<noteq> []" by auto
  have mono: "timeOffsetMs (kfs ! i) < timeOffsetMs (kfs ! j)" if "i < j" "j < length kfs" for i j
    using inc that by (simp add: sorted_wrt_iff_nth_less)
  consider "k = 0" | "k = length kfs - 1" "0 < k" | "0 < k" "k < length kfs - 1"
    using k by linarith
  then show ?thesis
  proof cases
    case 1
    with kfs ne show ?thesis by (simp add: interpolateFocusFromKeyframes_def)
  next
    case 2
    from mono [of 0 k] 2 k have "\<not> timeOffsetMs (kfs ! k) \<le> timeOffsetMs (kfs ! 0)" by simp
    with kfs ne 2 show ?thesis by (simp add: interpolateFocusFromKeyframes_def Let_def)
  next
    case 3
    from mono [of 0 k] 3 k have lo: "timeOffsetMs (kfs ! 0) < ?t - startMs r" by simp
    from mono [of k "length kfs - 1"] 3
    have hi: "?t - startMs r < timeOffsetMs (kfs ! (length kfs - 1))" by simp
    from interpolate_inner [OF kfs lo hi] obtain j where
      br: "bracketsAt kfs (timeOffsetMs (kfs ! k)) j" and
      val: "interpolateFocusFromKeyframes r ?t =
               (let p1 = kfs ! j; p2 = kfs ! (j + 1);
                    p0 = (if j > 0 then kfs ! (j - 1) else p1);
                    p3 = (if j + 2 < length kfs then kfs ! (j + 2) else p2);
                    u = (?t - startMs r - timeOffsetMs p1) / (timeOffsetMs p2 - timeOffsetMs p1)
                in Inr \<lparr>cx = catmullRomInterpolate (cx (kfFocus p0)) (cx (kfFocus p1))
                               (cx (kfFocus p2)) (cx (kfFocus p3)) u 0.5,
                         cy = catmullRomInterpolate (cy (kfFocus p0)) (cy (kfFocus p1))
                               (cy (kfFocus p2)) (cy (kfFocus p3)) u 0.5\<rparr>)"
      unfolding off by blast
    have "j = k"
    proof (rule ccontr)
      assume "j \<noteq> k"
      then consider "j < k" | "k < j" by linarith
      then show False
      proof cases
        case 1
        then have "j + 1 = k \<or> j + 1 < k" by linarith
        with mono [of "j + 1" k] k
        have "timeOffsetMs (kfs ! (j + 1)) \<le> timeOffsetMs (kfs ! k)" by auto
        with br show False by (simp add: bracketsAt_def)
      next
        case 2
        with br mono [of k j] show False by (simp add: bracketsAt_def)
      qed
    qed
    with val show ?thesis by (simp add: Let_def catmullRom_at_knot)
  qed
qed

theorem interpolate_at_keyframe_witness:
  "2 \<le> length [keyframeAt 0 0.2 0.3, keyframeAt 100 0.4 0.5, keyframeAt 250 0.9 0.1] \<and>
   sorted_wrt (<) (map timeOffsetMs [keyframeAt 0 0.2 0.3, keyframeAt 100 0.4 0.5, keyframeAt 250 0.9 0.1]) \<and>
   interpolateFocusFromKeyframes
     (keyframedRegion [keyframeAt 0 0.2 0.3, keyframeAt 100 0.4 0.5, keyframeAt 250 0.9 0.1]) 1100 =
     Inr \<lparr>cx = 0.4, cy = 0.5\<rparr>"
  using interpolate_at_keyframe
          [of "keyframedRegion [keyframeAt 0 0.2 0.3, keyframeAt 100 0.4 0.5, keyframeAt 250 0.9 0.1]"
              "[keyframeAt 0 0.2 0.3, keyframeAt 100 0.4 0.5, keyframeAt 250 0.9 0.1]" 1]
  by (simp add: keyframedRegion_def keyframeAt_def)

text \<open>
  C3, as stated, fails: the region \<open>[1000, 3000]\<close> with keyframes at offsets 0, 100, 200
  and 300 whose \<open>cx\<close> are 1, 0, 0 and 1 has every focus in \<open>[0, 1]\<close>, and at time 1150
  the interpolated \<open>cx\<close> is \<open>-1/8\<close>.
\<close>

theorem interpolate_leaves_unit_square:
  "regionFociUnit
     (keyframedRegion [keyframeAt 0 1 0.5, keyframeAt 100 0 0.5, keyframeAt 200 0 0.5,
                       keyframeAt 300 1 0.5]) \<and>
   interpolateFocusFromKeyframes
     (keyframedRegion [keyframeAt 0 1 0.5, keyframeAt 100 0 0.5, keyframeAt 200 0 0.5,
                       keyframeAt 300 1 0.5]) 1150 = Inr \<lparr>cx = - (1 / 8), cy = 1 / 2\<rparr> \<and>
   \<not> unitFocus \<lparr>cx = - (1 / 8), cy = 1 / 2\<rparr>"
  by (simp add: regionFociUnit_def unitFocus_def keyframedRegion_def keyframeAt_def
        interpolateFocusFromKeyframes_def keyframeIndexLoop.simps catmullRomInterpolate_def Let_def)

text \<open>
  C3, amended. For every zoom region whose static focus and keyframe foci all lie in
  \<open>[0, 1]\<close>, and for every query time, \<open>interpolateFocusFromKeyframes\<close> returns a focus
  (it does not throw) whose two coordinates lie in \<open>[-1/8, 9/8]\<close>: the spline may
  leave \<open>[0, 1]\<close> between keyframes, by at most an eighth.
\<close>

theorem interpolate_within_eighth:
  assumes u: "regionFociUnit r"
  shows "\<exists>f. interpolateFocusFromKeyframes r t = Inr f \<and>
             - (1 / 8) \<le> cx f \<and> cx f \<le> 9 / 8 \<and> - (1 / 8) \<le> cy f \<and> cy f \<le> 9 / 8"
proof -
  have unit_ok: "- (1 / 8) \<le> cx f \<and> cx f \<le> 9 / 8 \<and> - (1 / 8) \<le> cy f \<and> cy f \<le> 9 / 8"
    if "unitFocus f" for f
    using that by (simp add: unitFocus_def)
  from u have fu: "unitFocus (focus r)" by (simp add: regionFociUnit_def)
  show ?thesis
  proof (cases "focusKeyframes r")
    case None
    then have "interpolateFocusFromKeyframes r t = Inr (focus r)"
      by (simp add: interpolateFocusFromKeyframes_def)
    with unit_ok [OF fu] show ?thesis by simp
  next
    case (Some kfs)
    with u have ku: "unitFocus (kfFocus (kfs ! i))" if "i < length kfs" for i
      using that by (simp add: regionFociUnit_def list_all_length)
    let ?off = "t - startMs r"
    consider "kfs = []" | "kfs \<noteq> []" "?off \<le> timeOffsetMs (kfs ! 0)"
      | "kfs \<noteq> []" "\<not> ?off \<le> timeOffsetMs (kfs ! 0)"
        "timeOffsetMs (kfs ! (length kfs - 1)) \<le> ?off"
      | "kfs \<noteq> []" "timeOffsetMs (kfs ! 0) < ?off"
        "?off < timeOffsetMs (kfs ! (length kfs - 1))"
      by linarith
    then show ?thesis
    proof cases
      case 1
      with Some have "interpolateFocusFromKeyframes r t = Inr (focus r)"
        by (simp add: interpolateFocusFromKeyframes_def)
      with unit_ok [OF fu] show ?thesis by simp
    next
      case 2
      with Some have "interpolateFocusFromKeyframes r t = Inr (kfFocus (kfs ! 0))"
        by (simp add: interpolateFocusFromKeyframes_def)
      moreover from 2 have "unitFocus (kfFocus (kfs ! 0))" by (intro ku) simp
      ultimately show ?thesis using unit_ok by simp
    next
      case 3
      with Some have "interpolateFocusFromKeyframes r t = Inr (kfFocus (kfs ! (length kfs - 1)))"
        by (simp add: interpolateFocusFromKeyframes_def Let_def)
      moreover from 3 have "unitFocus (kfFocus (kfs ! (length kfs - 1)))" by (intro ku) simp
      ultimately show ?thesis using unit_ok by simp
    next
      case 4
      from interpolate_inner [OF Some 4(2) 4(3)] obtain k where
        br: "bracketsAt kfs ?off k" and
        val: "interpolateFocusFromKeyframes r t =
               (let p1 = kfs ! k; p2 = kfs ! (k + 1);
                    p0 = (if k > 0 then kfs ! (k - 1) else p1);
                    p3 = (if k + 2 < length kfs then kfs ! (k + 2) else p2);
                    u = (?off - timeOffsetMs p1) / (timeOffsetMs p2 - timeOffsetMs p1)
                in Inr \<lparr>cx = catmullRomInterpolate (cx (kfFocus p0)) (cx (kfFocus p1))
                               (cx (kfFocus p2)) (cx (kfFocus p3)) u 0.5,
                         cy = catmullRomInterpolate (cy (kfFocus p0)) (cy (kfFocus p1))
                               (cy (kfFocus p2)) (cy (kfFocus p3)) u 0.5\<rparr>)"
        by blast
      define p1 where "p1 = kfs ! k"
      define p2 where "p2 = kfs ! (k + 1)"
      define p0 where "p0 = (if k > 0 then kfs ! (k - 1) else p1)"
      define p3 where "p3 = (if k + 2 < length kfs then kfs ! (k + 2) else p2)"
      define v where "v = (?off - timeOffsetMs p1) / (timeOffsetMs p2 - timeOffsetMs p1)"
      from br have len: "k + 1 < length kfs"
        and b1: "timeOffsetMs p1 \<le> ?off" and b2: "?off < timeOffsetMs p2"
        by (simp_all add: bracketsAt_def p1_def p2_def)
      have v: "0 \<le> v" "v \<le> 1" using b1 b2 by (simp_all add: v_def)
      have u1: "unitFocus (kfFocus p1)" unfolding p1_def using len by (intro ku) simp
      have u2: "unitFocus (kfFocus p2)" unfolding p2_def using len by (intro ku) simp
      have u0: "unitFocus (kfFocus p0)" unfolding p0_def using len u1 by (auto simp: p1_def intro: ku)
      have u3: "unitFocus (kfFocus p3)" unfolding p3_def using len u2 by (auto intro: ku)
      have X: "- (1 / 8) \<le> catmullRomInterpolate (cx (kfFocus p0)) (cx (kfFocus p1))
                              (cx (kfFocus p2)) (cx (kfFocus p3)) v 0.5 \<and>
               catmullRomInterpolate (cx (kfFocus p0)) (cx (kfFocus p1))
                 (cx (kfFocus p2)) (cx (kfFocus p3)) v 0.5 \<le> 9 / 8"
        using u0 u1 u2 u3 v by (intro catmullRom_bounds) (simp_all add: unitFocus_def)
      have Y: "- (1 / 8) \<le> catmullRomInterpolate (cy (kfFocus p0)) (cy (kfFocus p1))
                              (cy (kfFocus p2)) (cy (kfFocus p3)) v 0.5 \<and>
               catmullRomInterpolate (cy (kfFocus p0)) (cy (kfFocus p1))
                 (cy (kfFocus p2)) (cy (kfFocus p3)) v 0.5 \<le> 9 / 8"
        using u0 u1 u2 u3 v by (intro catmullRom_bounds) (simp_all add: unitFocus_def)
      have "interpolateFocusFromKeyframes r t =
              Inr \<lparr>cx = catmullRomInterpolate (cx (kfFocus p0)) (cx (kfFocus p1))
                          (cx (kfFocus p2)) (cx (kfFocus p3)) v 0.5,
                   cy = catmullRomInterpolate (cy (kfFocus p0)) (cy (kfFocus p1))
                          (cy (kfFocus p2)) (cy (kfFocus p3)) v 0.5\<rparr>"
        unfolding val p0_def p1_def p2_def p3_def v_def Let_def by (rule refl)
      with X Y show ?thesis by simp
    qed
  qed
qed

theorem interpolate_within_eighth_witness:
  "regionFociUnit
     (keyframedRegion [keyframeAt 0 1 0.5, keyframeAt 100 0 0.5, keyframeAt 200 0 0.5,
                       keyframeAt 300 1 0.5]) \<and>
   interpolateFocusFromKeyframes
     (keyframedRegion [keyframeAt 0 1 0.5, keyframeAt 100 0 0.5, keyframeAt 200 0 0.5,
                       keyframeAt 300 1 0.5]) 1125 = Inr \<lparr>cx = - (3 / 32), cy = 1 / 2\<rparr> \<and>
   - (1 / 8) \<le> (- (3 / 32) :: real) \<and> (- (3 / 32) :: real) \<le> 9 / 8"
  using interpolate_within_eighth
          [of "keyframedRegion [keyframeAt 0 1 0.5, keyframeAt 100 0 0.5, keyframeAt 200 0 0.5,
                                keyframeAt 300 1 0.5]" 1125]
  by (simp add: regionFociUnit_def unitFocus_def keyframedRegion_def keyframeAt_def
        interpolateFocusFromKeyframes_def keyframeIndexLoop.simps catmullRomInterpolate_def Let_def)

section \<open>Properties of the cursor overlay\<close>

text \<open>
  C5 says that a click within 300 ms of \<open>timeMs\<close> anywhere in the event list gives
  \<open>isClick = true\<close>. The scan stops at the first event later than \<open>timeMs\<close>, so a
  click after that event is never looked at: for the sorted list of a move at 100 and a
  left click at 200, and the query time 50, the click is 150 ms away and the result has
  \<open>isClick = false\<close>.
\<close>

theorem getCursorPositionAtTime_misses_later_click:
  "evType (clickAt 200 0.5 0.5) = Click \<and>
   \<bar>timestamp (clickAt 200 0.5 0.5) - 50\<bar> < 300 \<and>
   sorted (map timestamp [moveAt 100 0.25 0.25, clickAt 200 0.5 0.5]) \<and>
   getCursorPositionAtTime [moveAt 100 0.25 0.25, clickAt 200 0.5 0.5] 50 =
     Some \<lparr>posX = 0.25, posY = 0.25, isClick = False\<rparr>"
  by (simp add: getCursorPositionAtTime_def moveAt_def clickAt_def)

section \<open>Properties of the playback smoothing\<close>

lemma scale_tickerSmooth: "scale (tickerSmooth T F s) = smoothToward T (scale s)"
  by (simp add: tickerSmooth_def smoothToward_def Let_def)

lemma scale_ticks: "scale ((tickerSmooth T F ^^ n) s) = (smoothToward T ^^ n) (scale s)"
  by (induction n) (simp_all add: scale_tickerSmooth)

lemma smoothToward_fixed: "smoothToward T T = T"
  by (simp add: smoothToward_def MIN_DELTA_def)

lemma smoothToward_fixed_pow: "(smoothToward T ^^ n) T = T"
  by (induction n) (simp_all add: smoothToward_fixed)

text \<open>While the gap stays above \<open>MIN_DELTA\<close>, each tick multiplies it by \<open>1 - SMOOTHING_FACTOR\<close>.\<close>

lemma smoothToward_far:
  assumes "\<forall>m < n. \<bar>T - (smoothToward T ^^ m) c\<bar> > MIN_DELTA"
  shows "T - (smoothToward T ^^ n) c = (T - c) * (1 - SMOOTHING_FACTOR) ^ n"
  using assms
proof (induction n)
  case 0
  then show ?case by simp
next
  case (Suc n)
  then have ih: "T - (smoothToward T ^^ n) c = (T - c) * (1 - SMOOTHING_FACTOR) ^ n" by simp
  from Suc.prems have far: "\<bar>T - (smoothToward T ^^ n) c\<bar> > MIN_DELTA" by simp
  have "T - (smoothToward T ^^ Suc n) c = (T - (smoothToward T ^^ n) c) * (1 - SMOOTHING_FACTOR)"
    using far by (simp add: smoothToward_def algebra_simps)
  with ih show ?case by simp
qed

lemma smoothToward_reaches: "\<exists>n. \<bar>T - (smoothToward T ^^ n) c\<bar> \<le> MIN_DELTA"
proof (rule ccontr)
  assume "\<not> ?thesis"
  then have far: "\<bar>T - (smoothToward T ^^ n) c\<bar> > MIN_DELTA" for n by (simp add: not_le)
  then have eq: "T - (smoothToward T ^^ n) c = (T - c) * (1 - SMOOTHING_FACTOR) ^ n" for n
    by (intro smoothToward_far) simp
  have d0: "0 < MIN_DELTA" by (simp add: MIN_DELTA_def)
  from far [of 0] d0 have ne: "0 < \<bar>T - c\<bar>" by simp
  have "0 < MIN_DELTA / \<bar>T - c\<bar>" using d0 ne by simp
  moreover have "1 - SMOOTHING_FACTOR < 1" by (simp add: SMOOTHING_FACTOR_def)
  ultimately obtain n where n: "(1 - SMOOTHING_FACTOR) ^ n < MIN_DELTA / \<bar>T - c\<bar>"
    using real_arch_pow_inv by blast
  have k0: "0 \<le> (1 - SMOOTHING_FACTOR) ^ n" by (simp add: SMOOTHING_FACTOR_def)
  have "\<bar>T - (smoothToward T ^^ n) c\<bar> = \<bar>T - c\<bar> * (1 - SMOOTHING_FACTOR) ^ n"
    unfolding eq using k0 by (simp add: abs_mult)
  also have "\<dots> < MIN_DELTA" using n ne by (simp add: pos_less_divide_eq mult.commute)
  finally show False using far [of n] by simp
qed

lemma smoothToward_first_reach:
  "\<exists>N. (\<forall>n < N. MIN_DELTA < \<bar>T - (smoothToward T ^^ n) c\<bar>) \<and>
        \<bar>T - (smoothToward T ^^ N) c\<bar> \<le> MIN_DELTA"
proof -
  define P where "P n \<longleftrightarrow> \<bar>T - (smoothToward T ^^ n) c\<bar> \<le> MIN_DELTA" for n
  from smoothToward_reaches [of T c] have "\<exists>n. P n" by (simp add: P_def)
  then have "P (LEAST n. P n)" and "\<forall>n < (LEAST n. P n). \<not> P n"
    by (auto intro: LeastI_ex dest: not_less_Least)
  then show ?thesis unfolding P_def by (intro exI [of _ "LEAST n. P n"]) (simp add: not_le P_def)
qed

lemma smoothToward_stays:
  assumes "\<bar>T - (smoothToward T ^^ N) c\<bar> \<le> MIN_DELTA" and "N < n"
  shows "(smoothToward T ^^ n) c = T"
proof -
  from assms(1) have s: "(smoothToward T ^^ Suc N) c = T" by (simp add: smoothToward_def)
  from assms(2) obtain k where n: "n = k + Suc N" by (metis Suc_leI le_Suc_ex add.commute)
  have "(smoothToward T ^^ n) c = (smoothToward T ^^ k) ((smoothToward T ^^ Suc N) c)"
    unfolding n by (simp only: funpow_add o_apply)
  with s show ?thesis by (simp add: smoothToward_fixed_pow)
qed

text \<open>
  C8. For every target scale \<open>T\<close> held constant and every starting state, the ticks of
  the smoothing step reach, after finitely many ticks \<open>N\<close>, a state whose scale is
  within \<open>MIN_DELTA\<close> of the target (the gap is above \<open>MIN_DELTA\<close> at every tick before);
  the next tick sets the scale to the target exactly and every later tick leaves it
  there. So there is a tick at which the gap is below \<open>MIN_DELTA\<close> and after which the
  scale equals the target for ever.
\<close>

theorem ticker_scale_converges:
  "(\<exists>N. (\<forall>n < N. MIN_DELTA < \<bar>T - scale ((tickerSmooth T F ^^ n) s)\<bar>) \<and>
        \<bar>T - scale ((tickerSmooth T F ^^ N) s)\<bar> \<le> MIN_DELTA \<and>
        (\<forall>n > N. scale ((tickerSmooth T F ^^ n) s) = T)) \<and>
   (\<exists>N. \<bar>scale ((tickerSmooth T F ^^ N) s) - T\<bar> < MIN_DELTA \<and>
        (\<forall>n > N. scale ((tickerSmooth T F ^^ n) s) = T))"
proof -
  from smoothToward_first_reach [of T "scale s"] obtain N where
    far: "\<forall>n < N. MIN_DELTA < \<bar>T - (smoothToward T ^^ n) (scale s)\<bar>" and
    near: "\<bar>T - (smoothToward T ^^ N) (scale s)\<bar> \<le> MIN_DELTA" by blast
  have stay: "(smoothToward T ^^ n) (scale s) = T" if "N < n" for n
    using near that by (rule smoothToward_stays)
  have A: "\<exists>N. (\<forall>n < N. MIN_DELTA < \<bar>T - scale ((tickerSmooth T F ^^ n) s)\<bar>) \<and>
        \<bar>T - scale ((tickerSmooth T F ^^ N) s)\<bar> \<le> MIN_DELTA \<and>
        (\<forall>n > N. scale ((tickerSmooth T F ^^ n) s) = T)"
    using far near stay unfolding scale_ticks by blast
  have "(smoothToward T ^^ Suc N) (scale s) = T" by (rule stay) simp
  then have "\<bar>(smoothToward T ^^ Suc N) (scale s) - T\<bar> < MIN_DELTA"
    by (simp only: diff_self abs_zero) (simp add: MIN_DELTA_def)
  moreover have "\<forall>n > Suc N. (smoothToward T ^^ n) (scale s) = T" using stay by simp
  ultimately have B: "\<exists>N. \<bar>scale ((tickerSmooth T F ^^ N) s) - T\<bar> < MIN_DELTA \<and>
        (\<forall>n > N. scale ((tickerSmooth T F ^^ n) s) = T)"
    unfolding scale_ticks by blast
  from A B show ?thesis by blast
qed

theorem ticker_scale_converges_witness:
  "MIN_DELTA < \<bar>1.00015 - scale ((tickerSmooth 1.00015 DEFAULT_FOCUS ^^ 3) initialAnimationState)\<bar> \<and>
   \<bar>1.00015 - scale ((tickerSmooth 1.00015 DEFAULT_FOCUS ^^ 4) initialAnimationState)\<bar> \<le> MIN_DELTA \<and>
   scale ((tickerSmooth 1.00015 DEFAULT_FOCUS ^^ 5) initialAnimationState) = 1.00015 \<and>
   (\<exists>N. \<bar>scale ((tickerSmooth 1.00015 DEFAULT_FOCUS ^^ N) initialAnimationState) - 1.00015\<bar> < MIN_DELTA \<and>
        (\<forall>n > N. scale ((tickerSmooth 1.00015 DEFAULT_FOCUS ^^ n) initialAnimationState) = 1.00015))"
  using ticker_scale_converges [of "1.00015" DEFAULT_FOCUS initialAnimationState]
  by (simp add: eval_nat_numeral tickerSmooth_def initialAnimationState_def DEFAULT_FOCUS_def
        MIN_DELTA_def SMOOTHING_FACTOR_def Let_def)

text \<open>
  The same for the whole tick, with the geometry, the regions and the playback time held
  constant: the scale reaches the tick's own target and stays there.
\<close>

lemma ticker_funpow:
  "(ticker g regs t ^^ n) s =
   (tickerSmooth (fst (tickerTarget g regs t)) (snd (tickerTarget g regs t)) ^^ n) s"
proof -
  have "ticker g regs t = tickerSmooth (fst (tickerTarget g regs t)) (snd (tickerTarget g regs t))"
    by (rule ext) (simp add: ticker_def split: prod.splits)
  then show ?thesis by simp
qed

lemma ticker_fixed_inputs_converges:
  "\<exists>N. \<forall>n > N. scale ((ticker g regs t ^^ n) s) = fst (tickerTarget g regs t)"
proof -
  from smoothToward_first_reach [of "fst (tickerTarget g regs t)" "scale s"] obtain N where
    "\<bar>fst (tickerTarget g regs t) - (smoothToward (fst (tickerTarget g regs t)) ^^ N) (scale s)\<bar>
       \<le> MIN_DELTA" by blast
  then have "\<forall>n > N. (smoothToward (fst (tickerTarget g regs t)) ^^ n) (scale s) =
                     fst (tickerTarget g regs t)"
    using smoothToward_stays by blast
  then show ?thesis unfolding ticker_funpow scale_ticks by blast
qed

end
